theory Spec2Isabelle
  imports Main "HOL-Library.Word"
begin

section \<open>Bytes, hex strings and the hasher\<close>

text \<open>
  A Node \<^verbatim>\<open>Buffer\<close> is a list of bytes. Strings are \<^typ>\<open>string\<close>; a string of the model
  stands for the UTF-8 bytes of the JavaScript string, so \<^verbatim>\<open>ethers.toUtf8Bytes\<close> reads the
  characters off one by one.
\<close>

type_synonym byte = "8 word"
type_synonym buffer = "byte list"

definition toUtf8Bytes :: "string \<Rightarrow> buffer" where
  "toUtf8Bytes s = map (\<lambda>c. word_of_nat (of_char c)) s"

text \<open>\<^verbatim>\<open>buf.toString("hex")\<close>: two lowercase hex digits per byte.\<close>

definition hex_digit :: "nat \<Rightarrow> char" where
  "hex_digit n = ''0123456789abcdef'' ! n"

definition byte_to_hex :: "byte \<Rightarrow> string" where
  "byte_to_hex b = [hex_digit (unat b div 16), hex_digit (unat b mod 16)]"

definition buffer_to_hex :: "buffer \<Rightarrow> string" where
  "buffer_to_hex b = concat (map byte_to_hex b)"

text \<open>
  \<^verbatim>\<open>Buffer.from(s, "hex")\<close>: reads two hex digits (either case) per byte, stops at the first
  pair that is not hex and drops a trailing single character.
\<close>

definition hex_val :: "char \<Rightarrow> nat option" where
  "hex_val c =
     (let n = (of_char c :: nat) in
      if 48 \<le> n \<and> n \<le> 57 then Some (n - 48)
      else if 97 \<le> n \<and> n \<le> 102 then Some (n - 87)
      else if 65 \<le> n \<and> n \<le> 70 then Some (n - 55)
      else None)"

fun buffer_from_hex :: "string \<Rightarrow> buffer" where
  "buffer_from_hex (a # b # rest) =
     (case hex_val a of
        None \<Rightarrow> []
      | Some x \<Rightarrow>
          (case hex_val b of
             None \<Rightarrow> []
           | Some y \<Rightarrow> word_of_nat (16 * x + y) # buffer_from_hex rest))"
| "buffer_from_hex _ = []"

text \<open>
  \<^verbatim>\<open>ethers.sha256\<close> is a library function; the digest function on bytes is the parameter
  \<open>sha\<close> of everything below. The library returns the digest as \<^verbatim>\<open>0x\<close> followed by its
  lowercase hex digits.
\<close>

definition ethers_sha256 :: "(buffer \<Rightarrow> buffer) \<Rightarrow> buffer \<Rightarrow> string" where
  "ethers_sha256 sha bytes = ''0x'' @ buffer_to_hex (sha bytes)"

text \<open>\<^verbatim>\<open>hashContent\<close> (utils/hash.ts).\<close>

definition hashContent :: "(buffer \<Rightarrow> buffer) \<Rightarrow> string \<Rightarrow> string" where
  "hashContent sha content = ethers_sha256 sha (toUtf8Bytes content)"

text \<open>
  \<^verbatim>\<open>hashLeaf\<close> (utils/merkle.ts) takes a string (\<open>Inl\<close>) or a Buffer (\<open>Inr\<close>), hashes its
  bytes and decodes the hex digest into a Buffer again.
\<close>

definition hashLeaf :: "(buffer \<Rightarrow> buffer) \<Rightarrow> string + buffer \<Rightarrow> buffer" where
  "hashLeaf sha d =
     (let bytes = (case d of Inr b \<Rightarrow> b | Inl s \<Rightarrow> toUtf8Bytes s);
          hash = ethers_sha256 sha bytes
      in buffer_from_hex (drop 2 hash))"

text \<open>\<^verbatim>\<open>Buffer.compare\<close>: bytewise, unsigned, a proper prefix first; the result is -1, 0 or 1.\<close>

fun buffer_compare :: "buffer \<Rightarrow> buffer \<Rightarrow> int" where
  "buffer_compare [] [] = 0"
| "buffer_compare [] (y # ys) = - 1"
| "buffer_compare (x # xs) [] = 1"
| "buffer_compare (x # xs) (y # ys) =
     (if x < y then - 1 else if y < x then 1 else buffer_compare xs ys)"

section \<open>The Merkle engine\<close>

text \<open>
  utils/merkle.ts builds its trees with the \<^verbatim>\<open>MerkleTree\<close> class of the merkletreejs package,
  with the option \<^verbatim>\<open>sortPairs: true\<close>; the class is not part of the repository. The
  definitions from \<open>sorted_pair\<close> to \<open>MerkleTree_verify\<close> stand for it.
\<close>

text \<open>
  Modelled from the spec: an element of a proof of the missing \<^verbatim>\<open>MerkleTree\<close> class, the
  sibling's hash and the side it stands on.
\<close>

datatype position = Left | Right

record proof_item =
  position :: position
  data :: buffer

text \<open>
  Modelled from the spec: the state of an object of the missing \<^verbatim>\<open>MerkleTree\<close> class, its
  leaves and its layers, the leaves being the first layer and the root the last.
\<close>

record MerkleTree =
  leaves :: "buffer list"
  layers :: "buffer list list"

text \<open>
  Modelled from the spec: the pairing rule of the missing \<^verbatim>\<open>MerkleTree\<close> class. Sibling pairs
  are sorted before combining: the two nodes are put in \<^verbatim>\<open>Buffer.compare\<close> order,
  concatenated and hashed.
\<close>

definition sorted_pair :: "buffer \<Rightarrow> buffer \<Rightarrow> buffer list" where
  "sorted_pair left right = (if buffer_compare left right > 0 then [right, left] else [left, right])"

text \<open>
  Modelled from the spec: the parent of two nodes in the missing \<^verbatim>\<open>MerkleTree\<close> class, the
  hash of the sorted pair's concatenation.
\<close>

definition combine :: "(buffer \<Rightarrow> buffer) \<Rightarrow> buffer \<Rightarrow> buffer \<Rightarrow> buffer" where
  "combine hashFn left right = hashFn (concat (sorted_pair left right))"

text \<open>
  Modelled from the spec: one level of the missing \<^verbatim>\<open>MerkleTree\<close> class. Nodes are paired
  from the left; with an odd count the last unpaired node is carried up unchanged.
\<close>

fun next_layer :: "(buffer \<Rightarrow> buffer) \<Rightarrow> buffer list \<Rightarrow> buffer list" where
  "next_layer hashFn (left # right # rest) = combine hashFn left right # next_layer hashFn rest"
| "next_layer hashFn [n] = [n]"
| "next_layer hashFn [] = []"

text \<open>
  Modelled from the spec: the layers of the missing \<^verbatim>\<open>MerkleTree\<close> class, the leaves first,
  a new level while the last one has more than one node.
\<close>

function createHashes :: "(buffer \<Rightarrow> buffer) \<Rightarrow> buffer list \<Rightarrow> buffer list list" where
  "createHashes hashFn nodes =
     (if length nodes > 1 then nodes # createHashes hashFn (next_layer hashFn nodes) else [nodes])"
  by pat_completeness auto
termination
proof (relation "measure (\<lambda>(hashFn, nodes). length nodes)")
  fix hashFn :: "buffer \<Rightarrow> buffer" and nodes :: "buffer list"
  assume more: "1 < length nodes"
  have "length (next_layer hashFn nodes) = (length nodes + 1) div 2"
    by (induction hashFn nodes rule: next_layer.induct) simp_all
  with more show "((hashFn, next_layer hashFn nodes), (hashFn, nodes))
      \<in> measure (\<lambda>(hashFn, nodes). length nodes)"
    by simp
qed simp

declare createHashes.simps [simp del]

text \<open>Modelled from the spec: the constructor of the missing \<^verbatim>\<open>MerkleTree\<close> class.\<close>

definition MerkleTree_new :: "buffer list \<Rightarrow> (buffer \<Rightarrow> buffer) \<Rightarrow> MerkleTree" where
  "MerkleTree_new lvs hashFn = \<lparr> leaves = lvs, layers = createHashes hashFn lvs \<rparr>"

text \<open>
  Modelled from the spec: \<^verbatim>\<open>getRoot\<close> of the missing \<^verbatim>\<open>MerkleTree\<close> class, the single node
  of the last layer; the empty Buffer is the root of the tree without leaves.
\<close>

definition getRoot :: "MerkleTree \<Rightarrow> buffer" where
  "getRoot tree =
     (case layers tree of
        [] \<Rightarrow> []
      | _ \<Rightarrow> (case last (layers tree) of [] \<Rightarrow> [] | r # _ \<Rightarrow> r))"

text \<open>
  Modelled from the spec: the lookup of a leaf in the missing \<^verbatim>\<open>MerkleTree\<close> class. The
  leaves are compared with the leaf one by one, starting at position \<open>i\<close>; the last match
  counts, and without a match the index stays as it was.
\<close>

fun leaf_index :: "nat \<Rightarrow> buffer list \<Rightarrow> buffer \<Rightarrow> int \<Rightarrow> int" where
  "leaf_index i [] leaf index = index"
| "leaf_index i (l # ls) leaf index =
     leaf_index (Suc i) ls leaf (if buffer_compare leaf l = 0 then int i else index)"

text \<open>
  Modelled from the spec: the proof of the node at an index in the missing \<^verbatim>\<open>MerkleTree\<close>
  class. From the leaves' layer upwards the proof takes the sibling of the current node,
  where it has one, and moves to the parent.
\<close>

fun proof_from :: "buffer list list \<Rightarrow> nat \<Rightarrow> proof_item list" where
  "proof_from [] index = []"
| "proof_from (layer # rest) index =
     (let isRightNode = (index mod 2 = 1);
          pairIndex = (if isRightNode then index - 1 else index + 1)
      in (if pairIndex < length layer
          then [\<lparr> position = (if isRightNode then Left else Right), data = layer ! pairIndex \<rparr>]
          else [])
         @ proof_from rest (index div 2))"

text \<open>
  Modelled from the spec: \<^verbatim>\<open>getProof\<close> of the missing \<^verbatim>\<open>MerkleTree\<close> class. The proof of a
  leaf that is not among the leaves (index -1) is empty.
\<close>

definition getProof :: "MerkleTree \<Rightarrow> buffer \<Rightarrow> proof_item list" where
  "getProof tree leaf =
     (let index = leaf_index 0 (leaves tree) leaf (- 1)
      in if index \<le> - 1 then [] else proof_from (layers tree) (nat index))"

text \<open>The hashes \<open>proof_from\<close> takes at one layer, for the lemmas about it.\<close>

definition sibling :: "buffer list \<Rightarrow> nat \<Rightarrow> buffer list" where
  "sibling layer index =
     (let pairIndex = (if index mod 2 = 1 then index - 1 else index + 1)
      in if pairIndex < length layer then [layer ! pairIndex] else [])"

text \<open>
  Modelled from the spec: one step of \<^verbatim>\<open>MerkleTree.verify\<close> of the missing class with
  \<^verbatim>\<open>sortPairs\<close>: the running hash and the proof element are sorted, concatenated and
  hashed.
\<close>

definition verify_step :: "(buffer \<Rightarrow> buffer) \<Rightarrow> buffer \<Rightarrow> buffer \<Rightarrow> buffer" where
  "verify_step hashFn hash node =
     (if buffer_compare hash node = - 1 then hashFn (concat [hash, node])
      else hashFn (concat [node, hash]))"

text \<open>
  Modelled from the spec: \<^verbatim>\<open>MerkleTree.verify\<close> of the missing class. The running hash
  starts at the target node and takes one step per proof element; the result must be the
  root.
\<close>

definition MerkleTree_verify ::
  "buffer list \<Rightarrow> buffer \<Rightarrow> buffer \<Rightarrow> (buffer \<Rightarrow> buffer) \<Rightarrow> bool" where
  "MerkleTree_verify proof targetNode root hashFn =
     (buffer_compare (foldl (verify_step hashFn) targetNode proof) root = 0)"

text \<open>The four functions of utils/merkle.ts.\<close>

definition createMerkleTree :: "(buffer \<Rightarrow> buffer) \<Rightarrow> string list \<Rightarrow> MerkleTree" where
  "createMerkleTree sha lvs =
     (let hashedLeaves = map (\<lambda>l. hashLeaf sha (Inl l)) lvs
      in MerkleTree_new hashedLeaves (\<lambda>b. hashLeaf sha (Inr b)))"

definition getMerkleRoot :: "MerkleTree \<Rightarrow> string" where
  "getMerkleRoot tree = ''0x'' @ buffer_to_hex (getRoot tree)"

definition getMerkleProof :: "(buffer \<Rightarrow> buffer) \<Rightarrow> MerkleTree \<Rightarrow> string \<Rightarrow> string list" where
  "getMerkleProof sha tree leaf =
     (let hashedLeaf = hashLeaf sha (Inl leaf)
      in map (\<lambda>p. ''0x'' @ buffer_to_hex (data p)) (getProof tree hashedLeaf))"

definition verifyMerkleProof ::
  "(buffer \<Rightarrow> buffer) \<Rightarrow> string list \<Rightarrow> string \<Rightarrow> string \<Rightarrow> bool" where
  "verifyMerkleProof sha proof leaf root =
     (let hashedLeaf = hashLeaf sha (Inl leaf);
          proofBuffers = map (\<lambda>p. buffer_from_hex (drop 2 p)) proof;
          rootBuffer = buffer_from_hex (drop 2 root)
      in MerkleTree_verify proofBuffers hashedLeaf rootBuffer (\<lambda>b. hashLeaf sha (Inr b)))"

section \<open>Entries, the chain document and the files of a logbook\<close>

text \<open>types.ts. Numbers are block numbers and unix seconds; they are integers here.\<close>

record BaseEntry =
  name :: string
  entryHash :: string
  previousHash :: string
  timestamp :: int
  blockNumber :: int

record ChainEntry = BaseEntry +
  txHash :: string
  merkleRoot :: string

record ChainData =
  logbookName :: string
  entries :: "ChainEntry list"

text \<open>
  What \<^verbatim>\<open>JSON.parse\<close> makes of chain.json: it throws a \<^verbatim>\<open>SyntaxError\<close>, or it yields a
  document that has no \<^verbatim>\<open>logbookName\<close> or no \<^verbatim>\<open>entries\<close> array, or it yields a chain
  document.
\<close>

datatype chain_json = Malformed | WrongShape | Chain ChainData

text \<open>An entry.txt that exists is read as text, or reading it throws.\<close>

datatype entry_txt = Content string | Unreadable

text \<open>
  The directory of one logbook holds chain.json and, for each entry name, the file
  \<^verbatim>\<open><name>/entry.txt\<close>. The disk maps logbook names to the directories under the logbook
  root; writing to it succeeds only while it is \<open>writable\<close>. Logbook and entry names are
  taken as plain directory names: \<^verbatim>\<open>path.join\<close> does not resolve anything in them.
\<close>

record logbook_dir =
  chain_file :: "chain_json option"
  entry_files :: "string \<rightharpoonup> entry_txt"

record disk =
  logbooks :: "string \<rightharpoonup> logbook_dir"
  writable :: bool

text \<open>The errors the code throws, one constructor for each place that throws.\<close>

datatype error =
    EmptyLogbookName
  | CorruptedChain
  | InvalidStructure
  | SaveFailed
  | InvalidEntryHash
  | InvalidTxHash
  | InvalidTimestamp
  | InvalidBlockNumber
  | PackageJsonNotFound
  | RangeError
  | FsError

text \<open>
  The calls of \<^verbatim>\<open>fs\<close> the code makes: \<^verbatim>\<open>existsSync\<close> and \<^verbatim>\<open>mkdirSync\<close> on a logbook directory,
  reading and writing chain.json, reading and writing an entry.txt. A write throws when
  the disk is not writable or the logbook directory is missing.
\<close>

definition existsSync_dir :: "disk \<Rightarrow> string \<Rightarrow> bool" where
  "existsSync_dir d lb = (logbooks d lb \<noteq> None)"

definition mkdirSync :: "disk \<Rightarrow> string \<Rightarrow> error + disk" where
  "mkdirSync d lb =
     (if \<not> writable d then Inl FsError
      else case logbooks d lb of
             Some _ \<Rightarrow> Inr d
           | None \<Rightarrow> Inr (d\<lparr>logbooks := (logbooks d)(lb \<mapsto> \<lparr>chain_file = None, entry_files = Map.empty\<rparr>)\<rparr>))"

definition read_chain_file :: "disk \<Rightarrow> string \<Rightarrow> chain_json option" where
  "read_chain_file d lb = (case logbooks d lb of None \<Rightarrow> None | Some dir \<Rightarrow> chain_file dir)"

definition write_chain_file :: "disk \<Rightarrow> string \<Rightarrow> ChainData \<Rightarrow> error + disk" where
  "write_chain_file d lb doc =
     (if \<not> writable d then Inl FsError
      else case logbooks d lb of
             None \<Rightarrow> Inl FsError
           | Some dir \<Rightarrow> Inr (d\<lparr>logbooks := (logbooks d)(lb \<mapsto> dir\<lparr>chain_file := Some (Chain doc)\<rparr>)\<rparr>))"

definition read_entry_file :: "disk \<Rightarrow> string \<Rightarrow> string \<Rightarrow> entry_txt option" where
  "read_entry_file d lb entryName =
     (case logbooks d lb of None \<Rightarrow> None | Some dir \<Rightarrow> entry_files dir entryName)"

definition write_entry_file :: "disk \<Rightarrow> string \<Rightarrow> string \<Rightarrow> string \<Rightarrow> error + disk" where
  "write_entry_file d lb entryName body =
     (if \<not> writable d then Inl FsError
      else case logbooks d lb of
             None \<Rightarrow> Inl FsError
           | Some dir \<Rightarrow>
               Inr (d\<lparr>logbooks :=
                      (logbooks d)(lb \<mapsto> dir\<lparr>entry_files := (entry_files dir)(entryName \<mapsto> Content body)\<rparr>)\<rparr>))"

section \<open>The chain manager (utils/chain.ts)\<close>

definition GENESIS_HASH :: "(buffer \<Rightarrow> buffer) \<Rightarrow> string" where
  "GENESIS_HASH sha = hashContent sha ''genesis''"

text \<open>
  The object: \<^verbatim>\<open>this.data\<close> and \<^verbatim>\<open>this.logbookName\<close>; the two paths are functions of the
  name.
\<close>

record ChainManager =
  mgr_data :: ChainData
  mgr_logbookName :: string

text \<open>
  \<^verbatim>\<open>s.trim() === ""\<close>: the string consists of white space and line terminators only. A
  string of the model is the UTF-8 form of the JavaScript string, so the characters that
  \<^verbatim>\<open>trim\<close> strips are the one-byte U+0009 to U+000D and U+0020, the two-byte U+00A0
  (C2 A0), and the three-byte U+1680 (E1 9A 80), U+2000 to U+200A (E2 80 80 to E2 80 8A),
  U+2028, U+2029, U+202F (E2 80 A8, A9, AF), U+205F (E2 81 9F), U+3000 (E3 80 80) and
  U+FEFF (EF BB BF).
\<close>

definition is_space :: "nat \<Rightarrow> bool" where
  "is_space a = ((9 \<le> a \<and> a \<le> 13) \<or> a = 32)"

definition is_space2 :: "nat \<Rightarrow> nat \<Rightarrow> bool" where
  "is_space2 a b = (a = 0xC2 \<and> b = 0xA0)"

definition is_space3 :: "nat \<Rightarrow> nat \<Rightarrow> nat \<Rightarrow> bool" where
  "is_space3 a b c =
     ((a = 0xE1 \<and> b = 0x9A \<and> c = 0x80)
      \<or> (a = 0xE2 \<and> b = 0x80 \<and> ((0x80 \<le> c \<and> c \<le> 0x8A) \<or> c = 0xA8 \<or> c = 0xA9 \<or> c = 0xAF))
      \<or> (a = 0xE2 \<and> b = 0x81 \<and> c = 0x9F)
      \<or> (a = 0xE3 \<and> b = 0x80 \<and> c = 0x80)
      \<or> (a = 0xEF \<and> b = 0xBB \<and> c = 0xBF))"

fun blank_bytes :: "nat list \<Rightarrow> bool" where
  "blank_bytes [] = True"
| "blank_bytes (a # bs) =
     (if is_space a then blank_bytes bs
      else case bs of
             [] \<Rightarrow> False
           | b # cs \<Rightarrow>
               (if is_space2 a b then blank_bytes cs
                else case cs of
                       [] \<Rightarrow> False
                     | c # ds \<Rightarrow> (if is_space3 a b c then blank_bytes ds else False)))"

definition blank :: "string \<Rightarrow> bool" where
  "blank s = blank_bytes (map of_char s)"

text \<open>
  \<^verbatim>\<open>saveChainData\<close>, \<^verbatim>\<open>loadOrCreateChain\<close> and the constructor, which first makes sure that the
  logbook directory exists.
\<close>

definition saveChainData :: "disk \<Rightarrow> string \<Rightarrow> ChainData \<Rightarrow> error + disk" where
  "saveChainData d lb doc =
     (case write_chain_file d lb doc of Inl _ \<Rightarrow> Inl SaveFailed | Inr d' \<Rightarrow> Inr d')"

definition loadOrCreateChain :: "disk \<Rightarrow> string \<Rightarrow> error + ChainData \<times> disk" where
  "loadOrCreateChain d lb =
     (case read_chain_file d lb of
        Some Malformed \<Rightarrow> Inl CorruptedChain
      | Some WrongShape \<Rightarrow> Inl InvalidStructure
      | Some (Chain doc) \<Rightarrow> (if logbookName doc = [] then Inl InvalidStructure else Inr (doc, d))
      | None \<Rightarrow>
          (let genesisChain = \<lparr>logbookName = lb, entries = []\<rparr>
           in case saveChainData d lb genesisChain of
                Inl e \<Rightarrow> Inl e
              | Inr d' \<Rightarrow> Inr (genesisChain, d')))"

definition ChainManager_new :: "disk \<Rightarrow> string \<Rightarrow> error + ChainManager \<times> disk" where
  "ChainManager_new d lb =
     (if lb = [] \<or> blank lb then Inl EmptyLogbookName
      else case (if existsSync_dir d lb then Inr d else mkdirSync d lb) of
             Inl e \<Rightarrow> Inl e
           | Inr d1 \<Rightarrow>
               (case loadOrCreateChain d1 lb of
                  Inl e \<Rightarrow> Inl e
                | Inr (doc, d2) \<Rightarrow> Inr (\<lparr>mgr_data = doc, mgr_logbookName = lb\<rparr>, d2)))"

definition save :: "ChainManager \<Rightarrow> disk \<Rightarrow> error + disk" where
  "save m d = saveChainData d (mgr_logbookName m) (mgr_data m)"

text \<open>The two regular expressions of \<^verbatim>\<open>addEntry\<close>: \<^verbatim>\<open>/^0x[0-9a-fA-F]+$/\<close> and \<^verbatim>\<open>/^0x[0-9a-fA-F]{64}$/\<close>.\<close>

definition is_hex :: "char \<Rightarrow> bool" where
  "is_hex c = (hex_val c \<noteq> None)"

definition match_hex_plus :: "string \<Rightarrow> bool" where
  "match_hex_plus s = (take 2 s = ''0x'' \<and> drop 2 s \<noteq> [] \<and> list_all is_hex (drop 2 s))"

definition match_hex_64 :: "string \<Rightarrow> bool" where
  "match_hex_64 s = (take 2 s = ''0x'' \<and> length (drop 2 s) = 64 \<and> list_all is_hex (drop 2 s))"

text \<open>
  \<^verbatim>\<open>addEntry\<close>. The result is the thrown error or the new entry, together with the object
  and the disk as the call leaves them.
\<close>

definition addEntry ::
  "(buffer \<Rightarrow> buffer) \<Rightarrow> ChainManager \<Rightarrow> disk \<Rightarrow> string \<Rightarrow> string \<Rightarrow> string \<Rightarrow> int \<Rightarrow> int
     \<Rightarrow> (error + ChainEntry) \<times> ChainManager \<times> disk" where
  "addEntry sha m d nm eHash tHash ts bn =
     (if eHash = [] \<or> \<not> match_hex_plus eHash then (Inl InvalidEntryHash, m, d)
      else if tHash = [] \<or> \<not> match_hex_64 tHash then (Inl InvalidTxHash, m, d)
      else if ts < 0 then (Inl InvalidTimestamp, m, d)
      else if bn < 0 then (Inl InvalidBlockNumber, m, d)
      else
        let es = entries (mgr_data m);
            prevHash = (if length es > 0 then entryHash (es ! (length es - 1)) else GENESIS_HASH sha);
            allHashes = map entryHash es @ [eHash];
            tree = createMerkleTree sha allHashes;
            root = getMerkleRoot tree;
            entry = \<lparr>name = nm, entryHash = eHash, previousHash = prevHash, timestamp = ts,
                     blockNumber = bn, txHash = tHash, merkleRoot = root\<rparr>;
            m' = m\<lparr>mgr_data := (mgr_data m)\<lparr>entries := es @ [entry]\<rparr>\<rparr>
        in case save m' d of
             Inl e \<Rightarrow> (Inl e, m', d)
           | Inr d' \<Rightarrow> (Inr entry, m', d'))"

definition getEntries :: "ChainManager \<Rightarrow> ChainEntry list" where
  "getEntries m = entries (mgr_data m)"

text \<open>
  \<^verbatim>\<open>validateChain\<close>. Each message the source pushes is one finding, with the values the
  message prints.
\<close>

datatype finding =
    GenesisMismatch string
  | ChainBroken nat string string
  | EntryFileNotFound string
  | ContentHashMismatch string string string
  | ReadFailed string

record validation =
  valid :: bool
  errors :: "finding list"

fun linkage_findings :: "nat \<Rightarrow> ChainEntry \<Rightarrow> ChainEntry list \<Rightarrow> finding list" where
  "linkage_findings i prev [] = []"
| "linkage_findings i prev (current # rest) =
     (if previousHash current \<noteq> entryHash prev
      then [ChainBroken i (entryHash prev) (previousHash current)] else [])
     @ linkage_findings (Suc i) current rest"

definition content_finding ::
  "(buffer \<Rightarrow> buffer) \<Rightarrow> disk \<Rightarrow> string \<Rightarrow> ChainEntry \<Rightarrow> finding list" where
  "content_finding sha d lb entry =
     (case read_entry_file d lb (name entry) of
        None \<Rightarrow> [EntryFileNotFound (name entry)]
      | Some Unreadable \<Rightarrow> [ReadFailed (name entry)]
      | Some (Content content) \<Rightarrow>
          (let computedHash = hashContent sha content
           in if computedHash \<noteq> entryHash entry
              then [ContentHashMismatch (name entry) (entryHash entry) computedHash]
              else []))"

definition validateChain :: "(buffer \<Rightarrow> buffer) \<Rightarrow> ChainManager \<Rightarrow> disk \<Rightarrow> validation" where
  "validateChain sha m d =
     (case entries (mgr_data m) of
        [] \<Rightarrow> \<lparr>valid = True, errors = []\<rparr>
      | first # rest \<Rightarrow>
          (let errs =
                 (if previousHash first \<noteq> GENESIS_HASH sha
                  then [GenesisMismatch (GENESIS_HASH sha)] else [])
                 @ linkage_findings 1 first rest
                 @ concat (map (content_finding sha d (mgr_logbookName m)) (first # rest))
           in \<lparr>valid = (errs = []), errors = errs\<rparr>))"

definition clear :: "ChainManager \<Rightarrow> disk \<Rightarrow> (error + unit) \<times> ChainManager \<times> disk" where
  "clear m d =
     (let m' = m\<lparr>mgr_data := \<lparr>logbookName = mgr_logbookName m, entries = []\<rparr>\<rparr>
      in case save m' d of Inl e \<Rightarrow> (Inl e, m', d) | Inr d' \<Rightarrow> (Inr (), m', d'))"

definition ChainManager_reconstruct ::
  "ChainManager \<Rightarrow> disk \<Rightarrow> ChainEntry list \<Rightarrow> (error + unit) \<times> ChainManager \<times> disk" where
  "ChainManager_reconstruct m d es =
     (let m' = m\<lparr>mgr_data := \<lparr>logbookName = mgr_logbookName m, entries = es\<rparr>\<rparr>
      in case save m' d of Inl e \<Rightarrow> (Inl e, m', d) | Inr d' \<Rightarrow> (Inr (), m', d'))"

definition logbookExists :: "disk \<Rightarrow> string \<Rightarrow> bool" where
  "logbookExists d lb = existsSync_dir d lb"

section \<open>The ledger and the sync service (services/blockchainSyncService.ts)\<close>

text \<open>
  The anchor service is the ledger. Each call returns a value, or throws an error with a
  message (\<open>Inl\<close>); the optional argument is the wallet address.
\<close>

record ValidationResult =
  onchain_valid :: bool
  brokenAtIndex :: int

record AnchorService =
  getLogbookNames :: "string option \<Rightarrow> string + string list"
  getAllEntries :: "string \<Rightarrow> string option \<Rightarrow> string + BaseEntry list"
  onchain_validateChain :: "string \<Rightarrow> string option \<Rightarrow> string + ValidationResult"

record SyncResult =
  success :: bool
  sync_entries :: "BaseEntry list"
  sync_errors :: "string list"

definition syncFromContract :: "AnchorService \<Rightarrow> string \<Rightarrow> SyncResult" where
  "syncFromContract svc lb =
     (case getLogbookNames svc None of
        Inl msg \<Rightarrow> \<lparr>success = False, sync_entries = [], sync_errors = [''Sync failed: '' @ msg]\<rparr>
      | Inr ocLogbooks \<Rightarrow>
          (if lb \<notin> set ocLogbooks
           then \<lparr>success = True, sync_entries = [], sync_errors = []\<rparr>
           else case getAllEntries svc lb None of
                  Inl msg \<Rightarrow>
                    \<lparr>success = False, sync_entries = [], sync_errors = [''Sync failed: '' @ msg]\<rparr>
                | Inr es \<Rightarrow> \<lparr>success = True, sync_entries = es, sync_errors = []\<rparr>))"

section \<open>The reconstructor (app/logbookReconstructor.ts)\<close>

record IntegrityCheck =
  needsReconstruction :: bool
  contractEntries :: "BaseEntry list option"

definition checkLocalIntegrity ::
  "AnchorService \<Rightarrow> disk \<Rightarrow> string \<Rightarrow> error + IntegrityCheck \<times> disk" where
  "checkLocalIntegrity svc d lb =
     (let result = syncFromContract svc lb in
      if \<not> success result \<or> length (sync_entries result) = 0
      then Inr (\<lparr>needsReconstruction = False, contractEntries = None\<rparr>, d)
      else if \<not> logbookExists d lb
      then Inr (\<lparr>needsReconstruction = True, contractEntries = Some (sync_entries result)\<rparr>, d)
      else
        case ChainManager_new d lb of
          Inl e \<Rightarrow> Inl e
        | Inr (chainManager, d') \<Rightarrow>
            (let localChain = getEntries chainManager in
             if length localChain = 0
             then Inr (\<lparr>needsReconstruction = True, contractEntries = Some (sync_entries result)\<rparr>, d')
             else if list_ex (\<lambda>e. txHash e = ''reconstructed'') localChain
             then Inr (\<lparr>needsReconstruction = True, contractEntries = Some (sync_entries result)\<rparr>, d')
             else
               let lastLocal = localChain ! (length localChain - 1);
                   lastContract = sync_entries result ! (length (sync_entries result) - 1);
                   needs = (length localChain \<noteq> length (sync_entries result)
                            \<or> entryHash lastLocal \<noteq> entryHash lastContract)
               in Inr (\<lparr>needsReconstruction = needs,
                         contractEntries = Some (sync_entries result)\<rparr>, d')))"

text \<open>
  For the statements about the integrity check: the entries of the chain document on
  disk (none without a chain.json), and the condition that the local store is absent or
  can be opened, that is, the \<^verbatim>\<open>ChainManager\<close> constructor does not throw.
\<close>

definition stored_entries :: "disk \<Rightarrow> string \<Rightarrow> ChainEntry list" where
  "stored_entries d lb = (case read_chain_file d lb of Some (Chain doc) \<Rightarrow> entries doc | _ \<Rightarrow> [])"

definition store_loads :: "disk \<Rightarrow> string \<Rightarrow> bool" where
  "store_loads d lb =
     (case logbooks d lb of
        None \<Rightarrow> True
      | Some dir \<Rightarrow>
          (if blank lb then False
           else case chain_file dir of
                  None \<Rightarrow> writable d
                | Some (Chain doc) \<Rightarrow> logbookName doc \<noteq> []
                | Some _ \<Rightarrow> False))"

text \<open>
  The chain entries built from the ledger's entries: \<^verbatim>\<open>entries.map((entry, index) => ...)\<close>,
  with the Merkle root over \<^verbatim>\<open>entries.slice(0, index + 1)\<close>.
\<close>

definition buildChainEntries :: "(buffer \<Rightarrow> buffer) \<Rightarrow> BaseEntry list \<Rightarrow> ChainEntry list" where
  "buildChainEntries sha es =
     map (\<lambda>(entry, index).
            let allHashes = map entryHash (take (index + 1) es);
                tree = createMerkleTree sha allHashes;
                root = getMerkleRoot tree
            in \<lparr>name = name entry, entryHash = entryHash entry,
                 previousHash = previousHash entry, timestamp = timestamp entry,
                 blockNumber = blockNumber entry, txHash = ''reconstructed'',
                 merkleRoot = root\<rparr>)
         (zip es [0..<length es])"

text \<open>
  The placeholder text. The ISO date of a unix time in milliseconds and the decimal form
  of a number come from the JavaScript runtime; they are the parameters \<open>isoDate\<close> and
  \<open>str\<close>. \<^verbatim>\<open>toISOString\<close> throws a \<^verbatim>\<open>RangeError\<close> for a time value beyond 8.64e15
  milliseconds on either side of the epoch.
\<close>

definition valid_time_value :: "int \<Rightarrow> bool" where
  "valid_time_value ms = (\<bar>ms\<bar> \<le> 8640000000000000)"

fun join :: "string \<Rightarrow> string list \<Rightarrow> string" where
  "join sep [] = []"
| "join sep [l] = l"
| "join sep (l # ls) = l @ sep @ join sep ls"

definition placeholder :: "(int \<Rightarrow> string) \<Rightarrow> (int \<Rightarrow> string) \<Rightarrow> BaseEntry \<Rightarrow> string" where
  "placeholder isoDate str entry =
     join [CHR 0x0A]
       [''PLACEHOLDER - Original content not available'',
        [],
        ''Entry hash: '' @ entryHash entry,
        ''Timestamp: '' @ isoDate (timestamp entry * 1000),
        ''Block: '' @ str (blockNumber entry),
        [],
        ''To restore:'',
        ''1. Locate backup'',
        ''2. Replace this file'',
        ''3. Verify hash matches'']"

text \<open>
  The loop over the ledger's entries that writes the placeholder files: an entry.txt that
  exists is left alone; otherwise the text is built, which throws for a timestamp out of
  range, and written. The result is the thrown error, if any, and the disk at that point.
\<close>

fun write_placeholders ::
  "(int \<Rightarrow> string) \<Rightarrow> (int \<Rightarrow> string) \<Rightarrow> disk \<Rightarrow> string \<Rightarrow> BaseEntry list
     \<Rightarrow> (error + unit) \<times> disk" where
  "write_placeholders isoDate str d lb [] = (Inr (), d)"
| "write_placeholders isoDate str d lb (entry # rest) =
     (if read_entry_file d lb (name entry) = None
      then (if \<not> valid_time_value (timestamp entry * 1000) then (Inl RangeError, d)
            else case write_entry_file d lb (name entry) (placeholder isoDate str entry) of
                   Inl e \<Rightarrow> (Inl e, d)
                 | Inr d' \<Rightarrow> write_placeholders isoDate str d' lb rest)
      else write_placeholders isoDate str d lb rest)"

datatype outcome = UpToDate | NoEntriesOnChain | Rebuilt validation

text \<open>
  \<^verbatim>\<open>reconstruct\<close>, for the logbook name the prompt returned. The result is the thrown error
  or the way the run ended, together with the disk as the run leaves it.
\<close>

definition reconstruct ::
  "(buffer \<Rightarrow> buffer) \<Rightarrow> (int \<Rightarrow> string) \<Rightarrow> (int \<Rightarrow> string) \<Rightarrow> AnchorService \<Rightarrow> disk \<Rightarrow> string
     \<Rightarrow> (error + outcome) \<times> disk" where
  "reconstruct sha isoDate str svc d lb =
     (case checkLocalIntegrity svc d lb of
        Inl e \<Rightarrow> (Inl e, d)
      | Inr (check, d1) \<Rightarrow>
          (if \<not> needsReconstruction check then (Inr UpToDate, d1)
           else
             let es = the (contractEntries check) in
             if length es = 0 then (Inr NoEntriesOnChain, d1)
             else
               case ChainManager_new d1 lb of
                 Inl e \<Rightarrow> (Inl e, d1)
               | Inr (chainManager, d2) \<Rightarrow>
                   (let chainEntries = buildChainEntries sha es in
                    case ChainManager_reconstruct chainManager d2 chainEntries of
                      (Inl e, m', d3) \<Rightarrow> (Inl e, d3)
                    | (Inr _, m', d3) \<Rightarrow>
                        (case write_placeholders isoDate str d3 lb es of
                           (Inl e, d4) \<Rightarrow> (Inl e, d4)
                         | (Inr _, d4) \<Rightarrow> (Inr (Rebuilt (validateChain sha m' d4)), d4)))))"

text \<open>
  For the statements about \<^verbatim>\<open>reconstruct\<close>: the run ended by rebuilding, and the state of the
  disk after a rebuild from the given ledger entries.
\<close>

definition is_rebuilt :: "error + outcome \<Rightarrow> bool" where
  "is_rebuilt r = (case r of Inr (Rebuilt v) \<Rightarrow> True | _ \<Rightarrow> False)"

definition rebuilt :: "(buffer \<Rightarrow> buffer) \<Rightarrow> BaseEntry list \<Rightarrow> disk \<Rightarrow> string \<Rightarrow> bool" where
  "rebuilt sha ledger d lb =
     (writable d \<and> \<not> blank lb \<and> ledger \<noteq> []
      \<and> read_chain_file d lb = Some (Chain \<lparr>logbookName = lb, entries = buildChainEntries sha ledger\<rparr>)
      \<and> list_all (\<lambda>e. read_entry_file d lb (name e) \<noteq> None) ledger)"

section \<open>The verifier (\<^verbatim>\<open>LogbookVerifier.performVerification\<close>)\<close>

record ExportMetadata =
  version :: string
  meta_logbookName :: string
  logbookNameHash :: string
  exportDate :: string
  totalEntries :: int
  walletAddress :: string
  chainId :: int
  codeHash :: string

record ExportEntry = ChainEntry +
  index :: int
  content :: string

record ExportData =
  metadata :: ExportMetadata
  export_entries :: "ExportEntry list"

text \<open>\<^verbatim>\<open>s.includes(t)\<close>: \<open>t\<close> occurs somewhere in \<open>s\<close>.\<close>

fun str_includes :: "string \<Rightarrow> string \<Rightarrow> bool" where
  "str_includes [] t = (t = [])"
| "str_includes (c # cs) t = (take (length t) (c # cs) = t \<or> str_includes cs t)"

definition isPlaceholder :: "ExportEntry \<Rightarrow> bool" where
  "isPlaceholder entry = str_includes (content entry) ''PLACEHOLDER - Original content not available''"

text \<open>The two flags the four steps share.\<close>

record flags =
  allValid :: bool
  hasPlaceholders :: bool

text \<open>Step 1, the content hashes.\<close>

fun verify_contents :: "(buffer \<Rightarrow> buffer) \<Rightarrow> ExportEntry list \<Rightarrow> flags \<Rightarrow> flags" where
  "verify_contents sha [] f = f"
| "verify_contents sha (entry # rest) f =
     (if isPlaceholder entry then verify_contents sha rest (f\<lparr>hasPlaceholders := True\<rparr>)
      else
        let computedHash = hashContent sha (content entry);
            ok = (computedHash = entryHash entry)
        in verify_contents sha rest (if \<not> ok then f\<lparr>allValid := False\<rparr> else f))"

text \<open>Step 2, the local linkage, index by index.\<close>

definition link_step :: "string \<Rightarrow> ExportEntry list \<Rightarrow> nat \<Rightarrow> flags \<Rightarrow> flags" where
  "link_step genesisHash es i f =
     (let entry = es ! i in
      if isPlaceholder entry then f
      else if i = 0
      then (if previousHash entry = genesisHash then f else f\<lparr>allValid := False\<rparr>)
      else if isPlaceholder (es ! (i - 1)) then f
      else if previousHash entry = entryHash (es ! (i - 1)) then f
      else f\<lparr>allValid := False\<rparr>)"

definition verify_links :: "(buffer \<Rightarrow> buffer) \<Rightarrow> ExportEntry list \<Rightarrow> flags \<Rightarrow> flags" where
  "verify_links sha es f = fold (link_step (hashContent sha ''genesis'') es) [0..<length es] f"

text \<open>Step 3, the ledger; whatever the two calls throw is caught.\<close>

definition contract_step :: "ExportEntry list \<Rightarrow> BaseEntry list \<Rightarrow> nat \<Rightarrow> flags \<Rightarrow> flags" where
  "contract_step es onChainEntries i f =
     (let local = es ! i;
          onChain = onChainEntries ! i;
          hashMatch = (entryHash local = entryHash onChain);
          prevMatch = (previousHash local = previousHash onChain);
          nameMatch = (name local = name onChain);
          ok = (hashMatch \<and> prevMatch \<and> nameMatch)
      in if \<not> ok then f\<lparr>allValid := False\<rparr> else f)"

definition verify_contract :: "AnchorService \<Rightarrow> ExportData \<Rightarrow> flags \<Rightarrow> flags" where
  "verify_contract svc dat f =
     (let lb = meta_logbookName (metadata dat);
          wallet = Some (walletAddress (metadata dat));
          es = export_entries dat
      in case getAllEntries svc lb wallet of
           Inl msg \<Rightarrow> f\<lparr>allValid := False\<rparr>
         | Inr onChainEntries \<Rightarrow>
             (let f1 = (if length onChainEntries \<noteq> length es then f\<lparr>allValid := False\<rparr>
                        else fold (contract_step es onChainEntries) [0..<length es] f)
              in case onchain_validateChain svc lb wallet of
                   Inl msg \<Rightarrow> f1\<lparr>allValid := False\<rparr>
                 | Inr v \<Rightarrow> (if \<not> onchain_valid v then f1\<lparr>allValid := False\<rparr> else f1)))"

text \<open>
  The three closing messages: \<^verbatim>\<open>RECONSTRUCTED LOGBOOK ... Blockchain verification: PASSED\<close>,
  \<^verbatim>\<open>VERIFICATION PASSED\<close> and \<^verbatim>\<open>VERIFICATION FAILED\<close>.
\<close>

datatype verdict = PASSED_WITH_PLACEHOLDERS | PASSED | FAILED

text \<open>
  \<^verbatim>\<open>performVerification\<close>. Step 4 compares code version hashes and only prints warnings,
  but it calls \<^verbatim>\<open>getPackageVersionHash\<close>, which throws when there is no package.json;
  \<open>pkg\<close> is the hash it returns, if any.
\<close>

definition performVerification ::
  "(buffer \<Rightarrow> buffer) \<Rightarrow> string option \<Rightarrow> AnchorService \<Rightarrow> ExportData \<Rightarrow> error + verdict" where
  "performVerification sha pkg svc dat =
     (let f0 = \<lparr>allValid = True, hasPlaceholders = False\<rparr>;
          f1 = verify_contents sha (export_entries dat) f0;
          f2 = verify_links sha (export_entries dat) f1;
          f3 = verify_contract svc dat f2
      in case pkg of
           None \<Rightarrow> Inl PackageJsonNotFound
         | Some currentCodeHash \<Rightarrow>
             Inr (if hasPlaceholders f3 then PASSED_WITH_PLACEHOLDERS
                  else if allValid f3 then PASSED
                  else FAILED))"

text \<open>
  For the statements about the verdict: some entry is a placeholder; step 1 finds no
  mismatch; step 2 finds no broken link (a placeholder entry and the entry after one are
  skipped); both ledger calls of step 3 returned; step 3 finds the same number of
  entries, the same name and hashes at every index, and a valid chain on the contract.
\<close>

definition has_placeholder :: "ExportEntry list \<Rightarrow> bool" where
  "has_placeholder es = list_ex isPlaceholder es"

definition contents_pass :: "(buffer \<Rightarrow> buffer) \<Rightarrow> ExportEntry list \<Rightarrow> bool" where
  "contents_pass sha es =
     list_all (\<lambda>e. isPlaceholder e \<or> hashContent sha (content e) = entryHash e) es"

definition link_pass :: "(buffer \<Rightarrow> buffer) \<Rightarrow> ExportEntry list \<Rightarrow> nat \<Rightarrow> bool" where
  "link_pass sha es i =
     (isPlaceholder (es ! i)
      \<or> (if i = 0 then previousHash (es ! i) = hashContent sha ''genesis''
          else isPlaceholder (es ! (i - 1)) \<or> previousHash (es ! i) = entryHash (es ! (i - 1))))"

definition links_pass :: "(buffer \<Rightarrow> buffer) \<Rightarrow> ExportEntry list \<Rightarrow> bool" where
  "links_pass sha es = list_all (link_pass sha es) [0..<length es]"

definition ledger_reached :: "AnchorService \<Rightarrow> ExportData \<Rightarrow> bool" where
  "ledger_reached svc dat =
     (\<not> isl (getAllEntries svc (meta_logbookName (metadata dat)) (Some (walletAddress (metadata dat))))
      \<and> \<not> isl (onchain_validateChain svc (meta_logbookName (metadata dat))
                  (Some (walletAddress (metadata dat)))))"

definition ledger_pass :: "AnchorService \<Rightarrow> ExportData \<Rightarrow> bool" where
  "ledger_pass svc dat =
     (case getAllEntries svc (meta_logbookName (metadata dat)) (Some (walletAddress (metadata dat))) of
        Inl msg \<Rightarrow> False
      | Inr onChainEntries \<Rightarrow>
          length onChainEntries = length (export_entries dat)
          \<and> list_all (\<lambda>i. entryHash (export_entries dat ! i) = entryHash (onChainEntries ! i)
                          \<and> previousHash (export_entries dat ! i) = previousHash (onChainEntries ! i)
                          \<and> name (export_entries dat ! i) = name (onChainEntries ! i))
                [0..<length (export_entries dat)]
          \<and> (case onchain_validateChain svc (meta_logbookName (metadata dat))
                      (Some (walletAddress (metadata dat))) of
                Inl msg \<Rightarrow> False
              | Inr v \<Rightarrow> onchain_valid v))"

section \<open>Example states\<close>

text \<open>
  A logbook \<^verbatim>\<open>lb\<close> with an empty chain, and the same logbook after one entry was appended
  under the identity function as digest.
\<close>

definition example_dir :: logbook_dir where
  "example_dir = \<lparr>chain_file = Some (Chain \<lparr>logbookName = ''lb'', entries = []\<rparr>), entry_files = Map.empty\<rparr>"

definition example_disk :: disk where
  "example_disk = \<lparr>logbooks = [''lb'' \<mapsto> example_dir], writable = True\<rparr>"

definition example_manager :: ChainManager where
  "example_manager = \<lparr>mgr_data = \<lparr>logbookName = ''lb'', entries = []\<rparr>, mgr_logbookName = ''lb''\<rparr>"

definition example_tx :: string where
  "example_tx = ''0x'' @ replicate 64 CHR ''a''"

definition example_entry :: ChainEntry where
  "example_entry = \<lparr>name = ''e'', entryHash = ''0xabcd'', previousHash = ''0x67656e65736973'',
     timestamp = 5, blockNumber = 6, txHash = example_tx, merkleRoot = ''0x307861626364''\<rparr>"

definition example_manager2 :: ChainManager where
  "example_manager2 =
     \<lparr>mgr_data = \<lparr>logbookName = ''lb'', entries = [example_entry]\<rparr>, mgr_logbookName = ''lb''\<rparr>"

definition example_disk2 :: disk where
  "example_disk2 =
     \<lparr>logbooks = [''lb'' \<mapsto> \<lparr>chain_file = Some (Chain \<lparr>logbookName = ''lb'', entries = [example_entry]\<rparr>),
                            entry_files = Map.empty\<rparr>],
      writable = True\<rparr>"

text \<open>Ledgers: one that returns the given entries, and one that cannot be reached.\<close>

definition example_ledger_entry :: BaseEntry where
  "example_ledger_entry = \<lparr>name = ''e'', entryHash = ''0xabcd'', previousHash = ''0x67656e65736973'',
     timestamp = 5, blockNumber = 6\<rparr>"

definition example_ledger_entry2 :: BaseEntry where
  "example_ledger_entry2 = \<lparr>name = ''f'', entryHash = ''0xef'', previousHash = ''0xabcd'',
     timestamp = 7, blockNumber = 8\<rparr>"

definition example_service :: "BaseEntry list \<Rightarrow> AnchorService" where
  "example_service es =
     \<lparr>getLogbookNames = (\<lambda>_. Inr [''lb'']),
      getAllEntries = (\<lambda>_ _. Inr es),
      onchain_validateChain = (\<lambda>_ _. Inr \<lparr>onchain_valid = True, brokenAtIndex = 0\<rparr>)\<rparr>"

definition unreachable_service :: AnchorService where
  "unreachable_service =
     \<lparr>getLogbookNames = (\<lambda>_. Inl ''network error''),
      getAllEntries = (\<lambda>_ _. Inl ''network error''),
      onchain_validateChain = (\<lambda>_ _. Inl ''network error'')\<rparr>"

text \<open>A reconstruction of the logbook on a disk without logbooks, from a ledger of two entries.\<close>

definition empty_disk :: disk where
  "empty_disk = \<lparr>logbooks = Map.empty, writable = True\<rparr>"

definition example_run :: "(error + outcome) \<times> disk" where
  "example_run =
     reconstruct (\<lambda>b. b) (\<lambda>t. ''1970-01-01T00:00:00.000Z'') (\<lambda>n. ''0'')
       (example_service [example_ledger_entry, example_ledger_entry2]) empty_disk ''lb''"

text \<open>An export bundle of the logbook, and an entry with placeholder content.\<close>

definition example_metadata :: ExportMetadata where
  "example_metadata =
     \<lparr>version = ''1.0'', meta_logbookName = ''lb'', logbookNameHash = ''0x00'',
      exportDate = ''1970-01-01T00:00:00.000Z'', totalEntries = 0, walletAddress = ''0x01'',
      chainId = 1, codeHash = ''0x02''\<rparr>"

definition example_bundle :: "ExportEntry list \<Rightarrow> ExportData" where
  "example_bundle es = \<lparr>metadata = example_metadata, export_entries = es\<rparr>"

definition example_export_entry :: ExportEntry where
  "example_export_entry =
     \<lparr>name = ''e'', entryHash = ''0xabcd'', previousHash = ''0x67656e65736973'', timestamp = 5,
      blockNumber = 6, txHash = ''reconstructed'', merkleRoot = ''0x307861626364'', index = 0,
      content = ''PLACEHOLDER - Original content not available''\<rparr>"

text \<open>The placeholder text of that run, and the state the run ends in.\<close>

definition example_placeholder :: "BaseEntry \<Rightarrow> string" where
  "example_placeholder entry = placeholder (\<lambda>t. ''1970-01-01T00:00:00.000Z'') (\<lambda>n. ''0'') entry"

definition example_rebuilt_chain :: ChainData where
  "example_rebuilt_chain =
     \<lparr>logbookName = ''lb'',
      entries = buildChainEntries (\<lambda>b. b) [example_ledger_entry, example_ledger_entry2]\<rparr>"

definition example_rebuilt_manager :: ChainManager where
  "example_rebuilt_manager = \<lparr>mgr_data = example_rebuilt_chain, mgr_logbookName = ''lb''\<rparr>"

definition example_rebuilt_disk :: disk where
  "example_rebuilt_disk =
     \<lparr>logbooks =
        [''lb'' \<mapsto>
           \<lparr>chain_file = Some (Chain example_rebuilt_chain),
            entry_files = [''e'' \<mapsto> Content (example_placeholder example_ledger_entry),
                           ''f'' \<mapsto> Content (example_placeholder example_ledger_entry2)]\<rparr>],
      writable = True\<rparr>"

section \<open>Properties\<close>

subsection \<open>Hex strings, byte order and Merkle proofs\<close>

lemma hex_digits_decode: "list_all (\<lambda>n. hex_val (hex_digit n) = Some n) [0..<16]"
  by code_simp

lemma hex_val_hex_digit: "n < 16 \<Longrightarrow> hex_val (hex_digit n) = Some n"
  using hex_digits_decode by (simp add: list_all_iff)

lemma byte_roundtrip: "buffer_from_hex (byte_to_hex b @ rest) = b # buffer_from_hex rest"
proof -
  have lt: "unat b < 256" using unsigned_less [of b, where ?'a = nat] by simp
  then have hi: "unat b div 16 < 16" and lo: "unat b mod 16 < 16" by auto
  have "word_of_nat (16 * (unat b div 16) + unat b mod 16) = b"
    by simp
  then show ?thesis
    by (simp add: byte_to_hex_def hex_val_hex_digit [OF hi] hex_val_hex_digit [OF lo])
qed

lemma buffer_hex_roundtrip: "buffer_from_hex (buffer_to_hex b) = b"
  by (induction b) (simp_all add: buffer_to_hex_def byte_roundtrip)

lemma hashLeaf_eq: "hashLeaf sha (Inr b) = sha b" "hashLeaf sha (Inl s) = sha (toUtf8Bytes s)"
  by (simp_all add: hashLeaf_def ethers_sha256_def buffer_hex_roundtrip)

lemma buffer_compare_refl: "buffer_compare a a = 0"
  by (induction a) simp_all

lemma buffer_compare_eq: "buffer_compare a b = 0 \<Longrightarrow> a = b"
  by (induction a b rule: buffer_compare.induct) (auto split: if_splits)

lemma buffer_compare_flip: "buffer_compare a b = - 1 \<longleftrightarrow> buffer_compare b a = 1"
  by (induction a b rule: buffer_compare.induct) auto

lemma buffer_compare_range:
  "buffer_compare a b = - 1 \<or> buffer_compare a b = 0 \<or> buffer_compare a b = 1"
  by (induction a b rule: buffer_compare.induct) auto

lemma verify_step_left: "verify_step h x y = combine h x y"
  using buffer_compare_range [of x y] buffer_compare_eq [of x y]
  by (auto simp: verify_step_def combine_def sorted_pair_def)

lemma verify_step_right: "verify_step h y x = combine h x y"
  using buffer_compare_range [of x y] buffer_compare_flip [of y x]
  by (auto simp: verify_step_def combine_def sorted_pair_def)

lemma length_next_layer: "length (next_layer h nodes) = (length nodes + 1) div 2"
  by (induction h nodes rule: next_layer.induct) simp_all

lemma data_proof_from:
  "map data (proof_from (layer # rest) k) = sibling layer k @ map data (proof_from rest (k div 2))"
  by (simp add: sibling_def Let_def)

lemma sibling_step:
  "k < length nodes \<Longrightarrow>
   foldl (verify_step h) (nodes ! k) (sibling nodes k) = next_layer h nodes ! (k div 2)"
proof (induction h nodes arbitrary: k rule: next_layer.induct)
  case (1 h left right rest)
  show ?case
  proof (cases "k < 2")
    case True
    then consider "k = 0" | "k = 1" by linarith
    then show ?thesis
    proof cases
      case 1
      then show ?thesis by (simp add: sibling_def verify_step_left)
    next
      case 2
      then show ?thesis by (simp add: sibling_def verify_step_right)
    qed
  next
    case False
    then obtain j where j: "k = Suc (Suc j)" by (metis less_2_cases_iff old.nat.exhaust)
    with 1 have "j < length rest" by simp
    from "1.IH" [OF this] have IH: "foldl (verify_step h) (rest ! j) (sibling rest j) = next_layer h rest ! (j div 2)" .
    have sib: "sibling (left # right # rest) (Suc (Suc j)) = sibling rest j"
      by (auto simp: sibling_def Let_def mod_Suc) 
    show ?thesis using IH by (simp add: j sib)
  qed
next
  case (2 h n)
  then show ?case by (simp add: sibling_def)
next
  case (3 h)
  then show ?case by simp
qed

lemma proof_reaches_root:
  "k < length nodes \<Longrightarrow>
   foldl (verify_step h) (nodes ! k) (map data (proof_from (createHashes h nodes) k))
     = hd (last (createHashes h nodes))"
proof (induction h nodes arbitrary: k rule: createHashes.induct)
  case (1 h nodes)
  show ?case
  proof (cases "1 < length nodes")
    case True
    have lt: "k div 2 < length (next_layer h nodes)"
      using "1.prems" by (simp add: length_next_layer)
    have ne: "createHashes h (next_layer h nodes) \<noteq> []"
      by (subst createHashes.simps) simp
    show ?thesis
      using "1.IH" [OF True lt] True ne
      by (subst (1 2) createHashes.simps)
         (simp add: data_proof_from sibling_step [OF "1.prems"] del: proof_from.simps)
  next
    case False
    with "1.prems" have "length nodes = 1" and "k = 0" by simp_all
    then obtain x where "nodes = [x]" by (cases nodes) simp_all
    then show ?thesis using \<open>k = 0\<close>
      by (subst (1 2) createHashes.simps) simp
  qed
qed

lemma leaf_index_absent: "leaf \<notin> set ls \<Longrightarrow> leaf_index i ls leaf idx = idx"
proof (induction ls arbitrary: i idx)
  case Nil
  then show ?case by simp
next
  case (Cons a ls)
  then have "buffer_compare leaf a \<noteq> 0" using buffer_compare_eq [of leaf a] by auto
  with Cons show ?case by simp
qed

lemma leaf_index_found:
  "leaf \<in> set ls \<Longrightarrow>
   \<exists>j. leaf_index i ls leaf idx = int (i + j) \<and> j < length ls \<and> ls ! j = leaf"
proof (induction ls arbitrary: i idx)
  case Nil
  then show ?case by simp
next
  case (Cons l ls)
  show ?case
  proof (cases "leaf \<in> set ls")
    case True
    from Cons.IH [OF True, of "Suc i" "if buffer_compare leaf l = 0 then int i else idx"]
    obtain j where "leaf_index (Suc i) ls leaf (if buffer_compare leaf l = 0 then int i else idx) = int (Suc i + j)"
      "j < length ls" "ls ! j = leaf" by blast
    then show ?thesis by (intro exI [of _ "Suc j"]) simp
  next
    case False
    from False Cons.prems have eq: "leaf = l" by simp
    have "leaf_index (Suc i) ls leaf (int i) = int i" by (rule leaf_index_absent [OF False])
    with eq show ?thesis by (intro exI [of _ 0]) (simp add: buffer_compare_refl)
  qed
qed

lemma getRoot_new: "getRoot (MerkleTree_new lvs h) = (case last (createHashes h lvs) of [] \<Rightarrow> [] | r # _ \<Rightarrow> r)"
proof -
  have "createHashes h lvs \<noteq> []" by (subst createHashes.simps) simp
  then show ?thesis by (simp add: getRoot_def MerkleTree_new_def split: list.splits)
qed

lemma last_layer_single: "nodes \<noteq> [] \<Longrightarrow> \<exists>r. last (createHashes h nodes) = [r]"
proof (induction h nodes rule: createHashes.induct)
  case (1 h nodes)
  show ?case
  proof (cases "1 < length nodes")
    case True
    then have "next_layer h nodes \<noteq> []"
      using length_next_layer [of h nodes] by auto
    from "1.IH" [OF True this] obtain r where r: "last (createHashes h (next_layer h nodes)) = [r]" ..
    have ne: "createHashes h (next_layer h nodes) \<noteq> []"
      by (subst createHashes.simps) simp
    show ?thesis using True r ne by (subst createHashes.simps) simp
  next
    case False
    with "1.prems" obtain x where "nodes = [x]" by (cases nodes) auto
    then show ?thesis by (subst createHashes.simps) simp
  qed
qed

lemma decode_proof:
  "map (\<lambda>p. buffer_from_hex (drop 2 p)) (map (\<lambda>p. ''0x'' @ buffer_to_hex (data p)) items)
     = map data items"
  by (simp add: buffer_hex_roundtrip)

text \<open>
  Claim C1. For every list of leaf hashes and every leaf in it (so the list is not empty;
  one leaf and odd sizes included), the proof generated for the leaf verifies against the
  root of the tree built from the list, whatever the digest function is.
\<close>

theorem merkle_proof_verifies:
  assumes "leaf \<in> set lvs"
  shows "verifyMerkleProof sha (getMerkleProof sha (createMerkleTree sha lvs) leaf) leaf
           (getMerkleRoot (createMerkleTree sha lvs)) = True"
proof -
  let ?h = "\<lambda>b. hashLeaf sha (Inr b)"
  let ?hashed = "map (\<lambda>l. hashLeaf sha (Inl l)) lvs"
  let ?leaf = "hashLeaf sha (Inl leaf)"
  have tree: "createMerkleTree sha lvs = MerkleTree_new ?hashed ?h"
    by (simp add: createMerkleTree_def)
  have "?leaf \<in> set ?hashed" using assms by auto
  from leaf_index_found [OF this, of 0 "- 1"]
  obtain j where j: "leaf_index 0 ?hashed ?leaf (- 1) = int j" "j < length ?hashed" "?hashed ! j = ?leaf"
    by auto
  have pf: "getProof (MerkleTree_new ?hashed ?h) ?leaf = proof_from (createHashes ?h ?hashed) j"
    using j(1) by (simp add: getProof_def MerkleTree_new_def)
  have "?hashed \<noteq> []" using assms by auto
  from last_layer_single [OF this, of ?h] obtain r where r: "last (createHashes ?h ?hashed) = [r]" ..
  have root: "getRoot (MerkleTree_new ?hashed ?h) = r"
    by (simp add: getRoot_new r)
  have "foldl (verify_step ?h) ?leaf (map data (proof_from (createHashes ?h ?hashed) j)) = r"
    using proof_reaches_root [OF j(2), of ?h] j(3) r by simp
  then show ?thesis
    unfolding verifyMerkleProof_def getMerkleProof_def getMerkleRoot_def tree Let_def pf root
      MerkleTree_verify_def decode_proof
    by (simp add: buffer_hex_roundtrip buffer_compare_refl)
qed

theorem merkle_proof_verifies_witness:
  "''0xcc'' \<in> set [''0xaa'', ''0xbb'', ''0xcc''] \<and>
   verifyMerkleProof (\<lambda>b. take 4 (rev b @ [7, 9, 1, 3]))
     (getMerkleProof (\<lambda>b. take 4 (rev b @ [7, 9, 1, 3]))
        (createMerkleTree (\<lambda>b. take 4 (rev b @ [7, 9, 1, 3])) [''0xaa'', ''0xbb'', ''0xcc'']) ''0xcc'')
     ''0xcc''
     (getMerkleRoot (createMerkleTree (\<lambda>b. take 4 (rev b @ [7, 9, 1, 3])) [''0xaa'', ''0xbb'', ''0xcc'']))
   = True"
proof -
  have h: "''0xcc'' \<in> set [''0xaa'', ''0xbb'', ''0xcc'']" by simp
  show ?thesis using h merkle_proof_verifies [OF h] by simp
qed

subsection \<open>Appending an entry\<close>

lemma match_example_tx: "match_hex_64 example_tx"
  by (simp add: match_hex_64_def example_tx_def is_hex_def hex_val_def list_all_iff)

lemma last_entry_hash:
  "(if length es > 0 then entryHash (es ! (length es - 1)) else g) =
   (if es = [] then g else entryHash (last es))"
  by (simp add: last_conv_nth)

lemma addEntry_ok:
  assumes "match_hex_plus eHash" "match_hex_64 tHash" "0 \<le> ts" "0 \<le> bn"
  shows "addEntry sha m d nm eHash tHash ts bn =
    (let es = entries (mgr_data m);
         entry = \<lparr>name = nm, entryHash = eHash,
                  previousHash = (if es = [] then GENESIS_HASH sha else entryHash (last es)),
                  timestamp = ts, blockNumber = bn, txHash = tHash,
                  merkleRoot = getMerkleRoot (createMerkleTree sha (map entryHash es @ [eHash]))\<rparr>;
         m' = m\<lparr>mgr_data := (mgr_data m)\<lparr>entries := es @ [entry]\<rparr>\<rparr>
     in case save m' d of Inl e \<Rightarrow> (Inl e, m', d) | Inr d' \<Rightarrow> (Inr entry, m', d'))"
proof -
  have e: "eHash \<noteq> []" using assms(1) by (auto simp: match_hex_plus_def)
  have t: "tHash \<noteq> []" using assms(2) by (auto simp: match_hex_64_def)
  show ?thesis
    unfolding addEntry_def Let_def last_entry_hash
    using assms e t by simp
qed

lemma save_ok:
  assumes "writable d" "logbooks d (mgr_logbookName m) = Some dir"
  shows "save m d = Inr (d\<lparr>logbooks := (logbooks d)(mgr_logbookName m \<mapsto> dir\<lparr>chain_file := Some (Chain (mgr_data m))\<rparr>)\<rparr>)"
  using assms by (simp add: save_def saveChainData_def write_chain_file_def)

lemma save_error: "save m d = Inl e \<Longrightarrow> e = SaveFailed"
  by (auto simp: save_def saveChainData_def split: sum.splits)

text \<open>
  Claim C4, as amended. \<^verbatim>\<open>addEntry\<close> checks the entry hash against \<^verbatim>\<open>/^0x[0-9a-fA-F]+$/\<close>:
  \<^verbatim>\<open>0x\<close> followed by one or more hex digits, of any length. The call fails with the
  entry hash format error exactly for the strings that do not match this pattern.
\<close>

theorem addEntry_entryHash_format:
  "fst (addEntry sha m d nm eHash tHash ts bn) = Inl InvalidEntryHash \<longleftrightarrow> \<not> match_hex_plus eHash"
proof (cases "match_hex_plus eHash")
  case False
  then show ?thesis by (simp add: addEntry_def)
next
  case True
  then have "eHash \<noteq> []" by (auto simp: match_hex_plus_def)
  with True show ?thesis
    by (auto simp: addEntry_def Let_def split: sum.splits dest: save_error)
qed

theorem addEntry_entryHash_format_witness:
  "fst (addEntry (\<lambda>b. b) example_manager example_disk ''e'' ''0xabc-'' example_tx 5 6) = Inl InvalidEntryHash
   \<and> fst (addEntry (\<lambda>b. b) example_manager example_disk ''e'' ''0xabcd'' example_tx 5 6) \<noteq> Inl InvalidEntryHash"
proof -
  have a: "\<not> match_hex_plus ''0xabc-''" by (simp add: match_hex_plus_def is_hex_def hex_val_def)
  have b: "match_hex_plus ''0xabcd''" by (simp add: match_hex_plus_def is_hex_def hex_val_def)
  show ?thesis
    using a b addEntry_entryHash_format [of "\<lambda>b. b" example_manager example_disk "''e''" "''0xabc-''" example_tx 5 6]
      addEntry_entryHash_format [of "\<lambda>b. b" example_manager example_disk "''e''" "''0xabcd''" example_tx 5 6]
    by simp
qed

text \<open>
  The claim as stated asks for 64 hex digits. A four-digit entry hash does not have that
  format and is appended all the same.
\<close>

theorem addEntry_short_hash_counterexample:
  "\<not> match_hex_64 ''0xabcd'' \<and>
   fst (addEntry (\<lambda>b. b) example_manager example_disk ''e'' ''0xabcd'' example_tx 5 6) =
     Inr \<lparr>name = ''e'', entryHash = ''0xabcd'', previousHash = ''0x67656e65736973'',
          timestamp = 5, blockNumber = 6, txHash = example_tx, merkleRoot = ''0x307861626364''\<rparr>"
proof -
  have b: "match_hex_plus ''0xabcd''" by (simp add: match_hex_plus_def is_hex_def hex_val_def)
  have s: "save m example_disk = Inr (example_disk\<lparr>logbooks := (logbooks example_disk)(''lb'' \<mapsto>
      example_dir\<lparr>chain_file := Some (Chain (mgr_data m))\<rparr>)\<rparr>)" if "mgr_logbookName m = ''lb''" for m
    using that save_ok [of example_disk m example_dir] by (simp add: example_disk_def)
  have g: "GENESIS_HASH (\<lambda>b. b) = ''0x67656e65736973''"
    by (simp add: GENESIS_HASH_def hashContent_def ethers_sha256_def toUtf8Bytes_def buffer_to_hex_def byte_to_hex_def hex_digit_def)
  have r: "getMerkleRoot (createMerkleTree (\<lambda>b. b) [''0xabcd'']) = ''0x307861626364''"
    by (simp add: getMerkleRoot_def createMerkleTree_def MerkleTree_new_def createHashes.simps getRoot_def Let_def
         hashLeaf_eq toUtf8Bytes_def buffer_to_hex_def byte_to_hex_def hex_digit_def)
  show ?thesis
    by (simp add: addEntry_ok [OF b match_example_tx] s example_manager_def g r Let_def)
       (simp add: match_hex_64_def)
qed


lemma example_genesis: "GENESIS_HASH (\<lambda>b. b) = ''0x67656e65736973''"
  by (simp add: GENESIS_HASH_def hashContent_def ethers_sha256_def toUtf8Bytes_def
      buffer_to_hex_def byte_to_hex_def hex_digit_def)

lemma example_root: "getMerkleRoot (createMerkleTree (\<lambda>b. b) [''0xabcd'']) = ''0x307861626364''"
  by (simp add: getMerkleRoot_def createMerkleTree_def MerkleTree_new_def createHashes.simps
      getRoot_def Let_def hashLeaf_eq toUtf8Bytes_def buffer_to_hex_def byte_to_hex_def hex_digit_def)

lemma match_example_hashes: "match_hex_plus ''0xabcd''" "match_hex_plus ''0xef''"
  by (simp_all add: match_hex_plus_def is_hex_def hex_val_def)

lemma example_first_append:
  "addEntry (\<lambda>b. b) example_manager example_disk nm ''0xabcd'' example_tx 5 6 =
     (Inr (example_entry\<lparr>name := nm\<rparr>),
      example_manager2\<lparr>mgr_data := \<lparr>logbookName = ''lb'', entries = [example_entry\<lparr>name := nm\<rparr>]\<rparr>\<rparr>,
      example_disk2\<lparr>logbooks := [''lb'' \<mapsto> \<lparr>chain_file = Some (Chain \<lparr>logbookName = ''lb'',
          entries = [example_entry\<lparr>name := nm\<rparr>]\<rparr>), entry_files = Map.empty\<rparr>]\<rparr>)"
  by (simp add: addEntry_ok [OF match_example_hashes(1) match_example_tx] Let_def
      example_manager_def example_genesis example_root save_def saveChainData_def
      write_chain_file_def example_disk_def example_dir_def example_entry_def
      example_manager2_def example_disk2_def)

lemma example_second_append:
  "fst (addEntry (\<lambda>b. b) example_manager2 example_disk2 nm ''0xef'' example_tx 7 8) =
     Inr \<lparr>name = nm, entryHash = ''0xef'', previousHash = ''0xabcd'', timestamp = 7,
          blockNumber = 8, txHash = example_tx,
          merkleRoot = getMerkleRoot (createMerkleTree (\<lambda>b. b) [''0xabcd'', ''0xef''])\<rparr>"
  by (simp add: addEntry_ok [OF match_example_hashes(2) match_example_tx] Let_def
      example_manager2_def example_entry_def save_def saveChainData_def
      write_chain_file_def example_disk2_def)

text \<open>
  Claim C5. The entry a successful \<^verbatim>\<open>addEntry\<close> returns has, as its \<^verbatim>\<open>previousHash\<close>, the
  hash of the string \<^verbatim>\<open>genesis\<close> when the chain was empty and the \<^verbatim>\<open>entryHash\<close> of the last
  entry otherwise.
\<close>

theorem addEntry_previousHash:
  assumes "addEntry sha m d nm eHash tHash ts bn = (Inr e, m', d')"
  shows "previousHash e =
           (if entries (mgr_data m) = [] then hashContent sha ''genesis''
            else entryHash (last (entries (mgr_data m))))"
proof -
  have ok: "match_hex_plus eHash" "match_hex_64 tHash" "0 \<le> ts" "0 \<le> bn"
    using assms by (auto simp: addEntry_def split: if_splits)
  show ?thesis
    using assms unfolding addEntry_ok [OF ok]
    by (auto simp: Let_def GENESIS_HASH_def split: sum.splits)
qed

theorem addEntry_previousHash_witness:
  "addEntry (\<lambda>b. b) example_manager example_disk ''e'' ''0xabcd'' example_tx 5 6 =
     (Inr example_entry, example_manager2, example_disk2)
   \<and> entries (mgr_data example_manager) = []
   \<and> previousHash example_entry = hashContent (\<lambda>b. b) ''genesis''
   \<and> entries (mgr_data example_manager2) = [example_entry]
   \<and> previousHash (projr (fst (addEntry (\<lambda>b. b) example_manager2 example_disk2 ''f'' ''0xef''
                                     example_tx 7 8)))
       = entryHash example_entry"
proof -
  let ?r = "addEntry (\<lambda>b. b) example_manager2 example_disk2 ''f'' ''0xef'' example_tx 7 8"
  have h: "addEntry (\<lambda>b. b) example_manager example_disk ''e'' ''0xabcd'' example_tx 5 6 =
     (Inr example_entry, example_manager2, example_disk2)"
    by (simp add: example_first_append)
       (simp add: example_entry_def example_manager2_def example_disk2_def)
  have "fst ?r = Inr (projr (fst ?r))"
    by (simp add: example_second_append)
  then have h2: "?r = (Inr (projr (fst ?r)), fst (snd ?r), snd (snd ?r))"
    by (metis prod.collapse)
  have es: "entries (mgr_data example_manager2) = [example_entry]"
    by (simp add: example_manager2_def)
  show ?thesis
    using h addEntry_previousHash [OF h] addEntry_previousHash [OF h2] es
    by (simp add: example_manager_def)
qed

text \<open>
  Claim C8. When the entry hash, the transaction hash, the timestamp or the block number
  fails its check, \<^verbatim>\<open>addEntry\<close> throws one of the four validation errors and leaves the
  object (the entries in memory) and the disk (chain.json) as they were.
\<close>

theorem addEntry_invalid_unchanged:
  assumes "\<not> match_hex_plus eHash \<or> \<not> match_hex_64 tHash \<or> ts < 0 \<or> bn < 0"
  shows "snd (addEntry sha m d nm eHash tHash ts bn) = (m, d)
         \<and> fst (addEntry sha m d nm eHash tHash ts bn)
             \<in> {Inl InvalidEntryHash, Inl InvalidTxHash, Inl InvalidTimestamp, Inl InvalidBlockNumber}"
  using assms by (auto simp: addEntry_def)

theorem addEntry_invalid_unchanged_witness:
  "\<not> match_hex_plus ''nohash''
   \<and> snd (addEntry (\<lambda>b. b) example_manager2 example_disk2 ''e'' ''nohash'' example_tx 5 6)
       = (example_manager2, example_disk2)
   \<and> (- 1::int) < 0
   \<and> snd (addEntry (\<lambda>b. b) example_manager2 example_disk2 ''e'' ''0xef'' example_tx 5 (- 1))
       = (example_manager2, example_disk2)"
proof -
  have a: "\<not> match_hex_plus ''nohash''"
    by (simp add: match_hex_plus_def)
  have b: "(- 1::int) < 0"
    by simp
  show ?thesis
    using a b
      addEntry_invalid_unchanged [OF disjI1, OF a, of "\<lambda>b. b" example_manager2 example_disk2 "''e''" example_tx 5 6]
      addEntry_invalid_unchanged [OF disjI2, OF disjI2, OF disjI2, OF b, of "\<lambda>b. b" example_manager2 example_disk2 "''e''" "''0xef''" example_tx 5]
    by simp
qed

text \<open>
  Claim C10. With an entry hash, a transaction hash, a timestamp and a block number that
  pass their checks, and a chain.json that can be written, \<^verbatim>\<open>addEntry\<close> succeeds for every
  name, whatever its characters and whether or not an entry has it already, and the new
  entry, appended in memory and on disk, carries the name unchanged.
\<close>

theorem addEntry_any_name:
  assumes "match_hex_plus eHash" "match_hex_64 tHash" "0 \<le> ts" "0 \<le> bn"
    and "writable d" "logbookExists d (mgr_logbookName m)"
  shows "\<exists>e m' d'. addEntry sha m d nm eHash tHash ts bn = (Inr e, m', d')
           \<and> name e = nm
           \<and> entries (mgr_data m') = entries (mgr_data m) @ [e]
           \<and> read_chain_file d' (mgr_logbookName m) = Some (Chain (mgr_data m'))"
proof -
  from assms(6) obtain dir where dir: "logbooks d (mgr_logbookName m) = Some dir"
    by (auto simp: logbookExists_def existsSync_dir_def)
  show ?thesis
    unfolding addEntry_ok [OF assms(1-4)] Let_def
    by (simp add: save_def saveChainData_def write_chain_file_def assms(5) dir read_chain_file_def)
qed

theorem addEntry_any_name_witness:
  "match_hex_plus ''0xef'' \<and> match_hex_64 example_tx \<and> (0::int) \<le> 7 \<and> (0::int) \<le> 8
   \<and> writable example_disk2 \<and> logbookExists example_disk2 (mgr_logbookName example_manager2)
   \<and> map name (entries (mgr_data example_manager2)) = [''e'']
   \<and> name (projr (fst (addEntry (\<lambda>b. b) example_manager2 example_disk2 [] ''0xef'' example_tx 7 8))) = []
   \<and> name (projr (fst (addEntry (\<lambda>b. b) example_manager2 example_disk2 ''not a name!'' ''0xef'' example_tx 7 8)))
       = ''not a name!''
   \<and> name (projr (fst (addEntry (\<lambda>b. b) example_manager2 example_disk2 ''e'' ''0xef'' example_tx 7 8))) = ''e''"
proof -
  have h: "match_hex_plus ''0xef''" "match_hex_64 example_tx" "(0::int) \<le> 7" "(0::int) \<le> 8"
    "writable example_disk2" "logbookExists example_disk2 (mgr_logbookName example_manager2)"
    by (simp_all add: match_example_hashes match_example_tx example_disk2_def example_manager2_def
        logbookExists_def existsSync_dir_def)
  have n: "map name (entries (mgr_data example_manager2)) = [''e'']"
    by (simp add: example_manager2_def example_entry_def)
  show ?thesis
    using h n addEntry_any_name [OF h, of "\<lambda>b. b" "[]"]
      addEntry_any_name [OF h, of "\<lambda>b. b" "''not a name!''"]
      addEntry_any_name [OF h, of "\<lambda>b. b" "''e''"]
    by auto
qed

subsection \<open>The integrity check\<close>

lemma sync_failure_no_entries: "\<not> success (syncFromContract svc lb) \<Longrightarrow> sync_entries (syncFromContract svc lb) = []"
  by (auto simp: syncFromContract_def split: sum.splits if_splits)

text \<open>
  Claim C9. When the ledger query fails, so that the sync result has \<^verbatim>\<open>success == false\<close>, the
  integrity check returns \<^verbatim>\<open>needsReconstruction == false\<close> without an error and without
  the ledger's entries: the same result as for a ledger that answers and has no logbook
  of that name.
\<close>

theorem checkIntegrity_sync_failure:
  assumes "\<not> success (syncFromContract svc lb)"
  shows "checkLocalIntegrity svc d lb = Inr (\<lparr>needsReconstruction = False, contractEntries = None\<rparr>, d)
         \<and> checkLocalIntegrity svc d lb
             = checkLocalIntegrity (svc\<lparr>getLogbookNames := \<lambda>_. Inr [], getAllEntries := \<lambda>_ _. Inr []\<rparr>) d lb"
  using assms by (simp add: checkLocalIntegrity_def syncFromContract_def)

theorem checkIntegrity_sync_failure_witness:
  "success (syncFromContract unreachable_service ''lb'') = False
   \<and> checkLocalIntegrity unreachable_service example_disk ''lb''
       = Inr (\<lparr>needsReconstruction = False, contractEntries = None\<rparr>, example_disk)
   \<and> checkLocalIntegrity unreachable_service example_disk ''lb''
       = checkLocalIntegrity (example_service []) example_disk ''lb''"
proof -
  have h: "\<not> success (syncFromContract unreachable_service ''lb'')"
    by (simp add: syncFromContract_def unreachable_service_def)
  have e: "unreachable_service\<lparr>getLogbookNames := \<lambda>_. Inr [], getAllEntries := \<lambda>_ _. Inr []\<rparr>
           = (example_service [])\<lparr>getLogbookNames := \<lambda>_. Inr [], onchain_validateChain := (\<lambda>_ _. Inl ''network error'')\<rparr>"
    by (simp add: unreachable_service_def example_service_def)
  have "checkLocalIntegrity (example_service []) example_disk ''lb''
      = Inr (\<lparr>needsReconstruction = False, contractEntries = None\<rparr>, example_disk)"
    by (simp add: checkLocalIntegrity_def syncFromContract_def example_service_def)
  then show ?thesis
    using h checkIntegrity_sync_failure [OF h, of example_disk] by simp
qed

lemma ChainManager_new_loads:
  assumes "logbooks d lb = Some dir" "store_loads d lb"
  shows "\<exists>m d'. ChainManager_new d lb = Inr (m, d') \<and> getEntries m = stored_entries d lb"
proof (cases "chain_file dir")
  case None
  with assms show ?thesis
    by (auto simp: ChainManager_new_def store_loads_def existsSync_dir_def loadOrCreateChain_def
        read_chain_file_def saveChainData_def write_chain_file_def getEntries_def stored_entries_def
        blank_def Let_def split: if_splits)
next
  case (Some cf)
  with assms show ?thesis
    by (cases cf)
       (auto simp: ChainManager_new_def store_loads_def existsSync_dir_def loadOrCreateChain_def
        read_chain_file_def getEntries_def stored_entries_def blank_def Let_def split: if_splits)
qed

text \<open>
  Claim C6. The ledger's entries are those of the sync result. When the ledger has no
  entries, or the local store is absent or can be opened, the integrity check returns a
  report, and it asks for
  reconstruction exactly when the ledger has entries and the local store does not exist,
  or has no entries, or has an entry whose \<^verbatim>\<open>txHash\<close> is \<^verbatim>\<open>reconstructed\<close>, or differs from
  the ledger in the number of entries or in the \<^verbatim>\<open>entryHash\<close> of the last entry. With no
  ledger entries the report is \<^verbatim>\<open>needsReconstruction == false\<close>.
\<close>

theorem checkIntegrity_needsReconstruction:
  assumes "sync_entries (syncFromContract svc lb) = [] \<or> store_loads d lb"
  shows "\<exists>check d'. checkLocalIntegrity svc d lb = Inr (check, d')
     \<and> (needsReconstruction check \<longleftrightarrow>
          sync_entries (syncFromContract svc lb) \<noteq> []
          \<and> (\<not> logbookExists d lb
             \<or> stored_entries d lb = []
             \<or> (\<exists>e \<in> set (stored_entries d lb). txHash e = ''reconstructed'')
             \<or> length (stored_entries d lb) \<noteq> length (sync_entries (syncFromContract svc lb))
             \<or> entryHash (last (stored_entries d lb))
                  \<noteq> entryHash (last (sync_entries (syncFromContract svc lb)))))"
proof (cases "\<not> success (syncFromContract svc lb) \<or> sync_entries (syncFromContract svc lb) = []")
  case True
  then have "sync_entries (syncFromContract svc lb) = []"
    using sync_failure_no_entries by blast
  with True show ?thesis by (simp add: checkLocalIntegrity_def)
next
  case ledger: False
  with assms have loads: "store_loads d lb" by simp
  show ?thesis
  proof (cases "logbooks d lb")
    case None
    with ledger show ?thesis
      by (simp add: checkLocalIntegrity_def logbookExists_def existsSync_dir_def)
  next
    case (Some dir)
    from ChainManager_new_loads [OF Some loads]
    obtain m d' where m: "ChainManager_new d lb = Inr (m, d')" "getEntries m = stored_entries d lb"
      by blast
    have ex: "logbookExists d lb" using Some by (simp add: logbookExists_def existsSync_dir_def)
    show ?thesis
      using ledger ex m
      by (simp add: checkLocalIntegrity_def Let_def list_ex_iff last_conv_nth)
  qed
qed


lemma blank_unicode_space:
  "blank []" "blank [CHR 0xC2, CHR 0xA0]" "blank [CHR 0xEF, CHR 0xBB, CHR 0xBF]"
  "blank [CHR 0x20, CHR 0xE2, CHR 0x80, CHR 0xA8, CHR 0x09]"
  "\<not> blank [CHR 0x20, CHR 0xE2, CHR 0x80, CHR 0x8B]" "\<not> blank ''a b''"
  by (simp_all add: blank_def is_space_def is_space2_def is_space3_def)

lemma store_loads_blank:
  "blank lb \<Longrightarrow> store_loads d lb \<longleftrightarrow> logbooks d lb = None"
  by (simp add: store_loads_def split: option.splits)

lemma example_sync: "sync_entries (syncFromContract (example_service es) ''lb'') = es"
  by (simp add: syncFromContract_def example_service_def)

lemma example_stored: "stored_entries example_disk2 ''lb'' = [example_entry]"
  by (simp add: stored_entries_def read_chain_file_def example_disk2_def)

lemma example_loads: "store_loads example_disk2 ''lb''"
  by (simp add: store_loads_def example_disk2_def blank_def is_space_def is_space2_def)

theorem checkIntegrity_needsReconstruction_witness:
  "store_loads example_disk2 ''lb''
   \<and> needsReconstruction (fst (projr (checkLocalIntegrity (example_service [example_ledger_entry])
         example_disk2 ''lb''))) = False
   \<and> needsReconstruction (fst (projr (checkLocalIntegrity
         (example_service [example_ledger_entry, example_ledger_entry2]) example_disk2 ''lb''))) = True"
proof -
  have ex: "logbookExists example_disk2 ''lb''"
    by (simp add: logbookExists_def existsSync_dir_def example_disk2_def)
  have tx: "txHash example_entry \<noteq> ''reconstructed''"
    by (simp add: example_entry_def example_tx_def)
  have hs: "entryHash example_entry = entryHash example_ledger_entry"
    by (simp add: example_entry_def example_ledger_entry_def)
  show ?thesis
    using example_loads
      checkIntegrity_needsReconstruction [OF disjI2, OF example_loads,
        of "example_service [example_ledger_entry]"]
      checkIntegrity_needsReconstruction [OF disjI2, OF example_loads,
        of "example_service [example_ledger_entry, example_ledger_entry2]"]
    by (auto simp: example_sync example_stored ex tx hs)
qed

subsection \<open>Reconstruction\<close>

lemma length_buildChainEntries: "length (buildChainEntries sha es) = length es"
  by (simp add: buildChainEntries_def)

lemma nth_buildChainEntries:
  "i < length es \<Longrightarrow>
   buildChainEntries sha es ! i =
     \<lparr>name = name (es ! i), entryHash = entryHash (es ! i), previousHash = previousHash (es ! i),
      timestamp = timestamp (es ! i), blockNumber = blockNumber (es ! i),
      txHash = ''reconstructed'',
      merkleRoot = getMerkleRoot (createMerkleTree sha (map entryHash (take (i + 1) es)))\<rparr>"
  by (simp add: buildChainEntries_def Let_def)

lemma txHash_buildChainEntries:
  "e \<in> set (buildChainEntries sha es) \<Longrightarrow> txHash e = ''reconstructed''"
  by (auto simp: buildChainEntries_def Let_def)

lemma ChainManager_new_result:
  assumes "ChainManager_new d lb = Inr (m, d')"
  shows "\<not> blank lb" "mgr_logbookName m = lb" "writable d' = writable d" "logbooks d' lb \<noteq> None"
    "read_entry_file d' lb n \<noteq> None \<longleftrightarrow> read_entry_file d lb n \<noteq> None"
  using assms
  by (auto simp: ChainManager_new_def existsSync_dir_def mkdirSync_def loadOrCreateChain_def
      read_chain_file_def saveChainData_def write_chain_file_def read_entry_file_def Let_def
      split: if_splits sum.splits option.splits chain_json.splits prod.splits)

lemma ChainManager_new_stored:
  assumes "\<not> blank lb" "read_chain_file d lb = Some (Chain doc)" "logbookName doc \<noteq> []"
  shows "ChainManager_new d lb = Inr (\<lparr>mgr_data = doc, mgr_logbookName = lb\<rparr>, d)"
proof -
  have "logbooks d lb \<noteq> None" using assms(2) by (auto simp: read_chain_file_def split: option.splits)
  moreover have "lb \<noteq> []" using assms(1) by (auto simp: blank_def)
  ultimately show ?thesis
    using assms by (simp add: ChainManager_new_def existsSync_dir_def loadOrCreateChain_def)
qed

lemma ChainManager_reconstruct_result:
  assumes "ChainManager_reconstruct m d es = (Inr u, m', d')"
  shows "m' = m\<lparr>mgr_data := \<lparr>logbookName = mgr_logbookName m, entries = es\<rparr>\<rparr>"
    "writable d'" "read_chain_file d' (mgr_logbookName m) = Some (Chain \<lparr>logbookName = mgr_logbookName m, entries = es\<rparr>)"
    "read_entry_file d' (mgr_logbookName m) n = read_entry_file d (mgr_logbookName m) n"
  using assms
  by (auto simp: ChainManager_reconstruct_def save_def saveChainData_def write_chain_file_def
      read_chain_file_def read_entry_file_def Let_def split: sum.splits if_splits option.splits)

lemma write_chain_file_same:
  assumes "writable d" "read_chain_file d lb = Some (Chain doc)"
  shows "write_chain_file d lb doc = Inr d"
proof -
  from assms(2) obtain dir where dir: "logbooks d lb = Some dir" "chain_file dir = Some (Chain doc)"
    by (auto simp: read_chain_file_def split: option.splits)
  have "dir\<lparr>chain_file := Some (Chain doc)\<rparr> = dir" using dir(2) by simp
  moreover have "(logbooks d)(lb \<mapsto> dir) = logbooks d" using dir(1) by (rule map_upd_triv)
  ultimately show ?thesis using assms(1) dir(1) by (simp add: write_chain_file_def)
qed

lemma write_placeholders_result:
  "write_placeholders isoDate str d lb es = (Inr u, d') \<Longrightarrow>
   writable d' = writable d \<and> read_chain_file d' lb = read_chain_file d lb
   \<and> (\<forall>n. read_entry_file d lb n \<noteq> None \<longrightarrow> read_entry_file d' lb n \<noteq> None)
   \<and> (\<forall>e \<in> set es. read_entry_file d' lb (name e) \<noteq> None)"
proof (induction es arbitrary: d)
  case Nil
  then show ?case by simp
next
  case (Cons e es)
  show ?case
  proof (cases "read_entry_file d lb (name e) = None")
    case False
    with Cons.prems have "write_placeholders isoDate str d lb es = (Inr u, d')" by simp
    from Cons.IH [OF this] False show ?thesis by auto
  next
    case True
    with Cons.prems obtain d1 where
      w: "write_entry_file d lb (name e) (placeholder isoDate str e) = Inr d1"
      and r: "write_placeholders isoDate str d1 lb es = (Inr u, d')"
      by (auto split: sum.splits if_splits)
    from w have d1: "writable d1 = writable d" "read_chain_file d1 lb = read_chain_file d lb"
      "read_entry_file d1 lb (name e) \<noteq> None"
      "\<And>n. read_entry_file d lb n \<noteq> None \<Longrightarrow> read_entry_file d1 lb n \<noteq> None"
      by (auto simp: write_entry_file_def read_chain_file_def read_entry_file_def
          split: if_splits option.splits)
    from Cons.IH [OF r] d1 show ?thesis by auto
  qed
qed

lemma write_placeholders_present:
  "\<forall>e \<in> set es. read_entry_file d lb (name e) \<noteq> None \<Longrightarrow>
   write_placeholders isoDate str d lb es = (Inr (), d)"
  by (induction es) auto

lemma checkLocalIntegrity_needs:
  assumes "checkLocalIntegrity svc d lb = Inr (check, d1)" "needsReconstruction check"
  shows "contractEntries check = Some (sync_entries (syncFromContract svc lb))"
    "sync_entries (syncFromContract svc lb) \<noteq> []"
    "writable d1 = writable d"
    "read_entry_file d1 lb n \<noteq> None \<longleftrightarrow> read_entry_file d lb n \<noteq> None"
  using assms
  by (auto simp: checkLocalIntegrity_def Let_def
      split: if_splits sum.splits prod.splits dest: ChainManager_new_result(3,5))

lemma reconstruct_rebuilt:
  assumes "reconstruct sha isoDate str svc d lb = (Inr (Rebuilt v), d')"
  shows "rebuilt sha (sync_entries (syncFromContract svc lb)) d' lb"
    and "v = validateChain sha \<lparr>mgr_data = \<lparr>logbookName = lb,
              entries = buildChainEntries sha (sync_entries (syncFromContract svc lb))\<rparr>,
            mgr_logbookName = lb\<rparr> d'"
proof -
  let ?ledger = "sync_entries (syncFromContract svc lb)"
  from assms obtain check d1 where
    c: "checkLocalIntegrity svc d lb = Inr (check, d1)" and n: "needsReconstruction check"
    by (auto simp: reconstruct_def split: sum.splits if_splits prod.splits)
  note cn = checkLocalIntegrity_needs [OF c n]
  from assms c n cn(1,2) obtain m d2 where
    m: "ChainManager_new d1 lb = Inr (m, d2)"
    by (auto simp: reconstruct_def Let_def split: sum.splits if_splits prod.splits)
  note mn = ChainManager_new_result [OF m]
  from assms c n cn(1,2) m obtain u m' d3 where
    r: "ChainManager_reconstruct m d2 (buildChainEntries sha ?ledger) = (Inr u, m', d3)"
    by (auto simp: reconstruct_def Let_def split: sum.splits if_splits prod.splits)
  note rn = ChainManager_reconstruct_result [OF r]
  from assms c n cn(1,2) m r have
    w: "write_placeholders isoDate str d3 lb ?ledger = (Inr (), d')" and v: "v = validateChain sha m' d'"
    by (auto simp: reconstruct_def Let_def split: sum.splits if_splits prod.splits)
  note wn = write_placeholders_result [OF w]
  show "rebuilt sha ?ledger d' lb"
    using wn rn(2,3) mn(1,2) cn(2) by (simp add: rebuilt_def list_all_iff)
  have "m' = \<lparr>mgr_data = \<lparr>logbookName = lb, entries = buildChainEntries sha ?ledger\<rparr>,
            mgr_logbookName = lb\<rparr>"
    using rn(1) mn(2) by (cases m) simp
  with v show "v = validateChain sha \<lparr>mgr_data = \<lparr>logbookName = lb,
              entries = buildChainEntries sha ?ledger\<rparr>, mgr_logbookName = lb\<rparr> d'"
    by simp
qed

lemma rebuilt_reconstruct:
  assumes "rebuilt sha (sync_entries (syncFromContract svc lb)) d lb"
  shows "reconstruct sha isoDate str svc d lb =
    (Inr (Rebuilt (validateChain sha \<lparr>mgr_data = \<lparr>logbookName = lb,
        entries = buildChainEntries sha (sync_entries (syncFromContract svc lb))\<rparr>,
      mgr_logbookName = lb\<rparr> d)), d)"
proof -
  let ?ledger = "sync_entries (syncFromContract svc lb)"
  let ?doc = "\<lparr>logbookName = lb, entries = buildChainEntries sha ?ledger\<rparr>"
  let ?m = "\<lparr>mgr_data = ?doc, mgr_logbookName = lb\<rparr>"
  from assms have a: "writable d" "\<not> blank lb" "?ledger \<noteq> []" "read_chain_file d lb = Some (Chain ?doc)"
    "\<forall>e \<in> set ?ledger. read_entry_file d lb (name e) \<noteq> None"
    by (simp_all add: rebuilt_def list_all_iff)
  have lb: "lb \<noteq> []" using a(2) by (auto simp: blank_def)
  have new: "ChainManager_new d lb = Inr (?m, d)"
    using ChainManager_new_stored [OF a(2) a(4)] lb by simp
  have suc: "success (syncFromContract svc lb)"
    using a(3) by (auto simp: syncFromContract_def split: sum.splits if_splits)
  have ex: "logbookExists d lb"
    using a(4) by (auto simp: logbookExists_def existsSync_dir_def read_chain_file_def split: option.splits)
  have built: "buildChainEntries sha ?ledger \<noteq> []"
    using a(3) length_buildChainEntries [of sha ?ledger] by (metis length_0_conv)
  then have ph: "list_ex (\<lambda>e. txHash e = ''reconstructed'') (buildChainEntries sha ?ledger)"
    using txHash_buildChainEntries [of _ sha ?ledger]
    by (cases "buildChainEntries sha ?ledger") (auto simp: list_ex_iff)
  have check: "checkLocalIntegrity svc d lb =
      Inr (\<lparr>needsReconstruction = True, contractEntries = Some ?ledger\<rparr>, d)"
    using suc a(3) ex new built ph by (simp add: checkLocalIntegrity_def Let_def getEntries_def)
  have rec: "ChainManager_reconstruct ?m d (buildChainEntries sha ?ledger) = (Inr (), ?m, d)"
    using write_chain_file_same [OF a(1) a(4)]
    by (simp add: ChainManager_reconstruct_def save_def saveChainData_def Let_def)
  show ?thesis
    using check new rec write_placeholders_present [OF a(5)] a(3)
    by (simp add: reconstruct_def Let_def)
qed

text \<open>
  Claim C7. When a run of \<^verbatim>\<open>reconstruct\<close> rebuilds the logbook (so the ledger's list is not
  empty), the chain on disk has one entry per ledger entry, and the entry at each index
  has the \<^verbatim>\<open>previousHash\<close> the ledger reported at that index, the \<^verbatim>\<open>txHash\<close>
  \<^verbatim>\<open>reconstructed\<close>, and as \<^verbatim>\<open>merkleRoot\<close> the Merkle root over the \<^verbatim>\<open>entryHash\<close> values of the
  ledger entries up to and including that index. Reconstructing again from the same
  ledger entries ends the same way and leaves the disk as it is.
\<close>

theorem reconstruct_from_ledger:
  assumes "reconstruct sha isoDate str svc d lb = (Inr (Rebuilt v), d')"
  shows "length (stored_entries d' lb) = length (sync_entries (syncFromContract svc lb))
    \<and> (\<forall>i < length (sync_entries (syncFromContract svc lb)).
          previousHash (stored_entries d' lb ! i) = previousHash (sync_entries (syncFromContract svc lb) ! i)
        \<and> txHash (stored_entries d' lb ! i) = ''reconstructed''
        \<and> merkleRoot (stored_entries d' lb ! i) =
            getMerkleRoot (createMerkleTree sha
              (map entryHash (take (i + 1) (sync_entries (syncFromContract svc lb))))))
    \<and> reconstruct sha isoDate str svc d' lb = (Inr (Rebuilt v), d')"
proof -
  let ?ledger = "sync_entries (syncFromContract svc lb)"
  note rb = reconstruct_rebuilt [OF assms]
  have st: "stored_entries d' lb = buildChainEntries sha ?ledger"
    using rb(1) by (simp add: rebuilt_def stored_entries_def)
  show ?thesis
    unfolding st using rb(2) rebuilt_reconstruct [OF rb(1), of isoDate str]
    by (simp add: length_buildChainEntries nth_buildChainEntries)
qed


lemma example_built:
  "buildChainEntries sha [example_ledger_entry, example_ledger_entry2] =
     [\<lparr>name = ''e'', entryHash = ''0xabcd'', previousHash = ''0x67656e65736973'', timestamp = 5,
       blockNumber = 6, txHash = ''reconstructed'',
       merkleRoot = getMerkleRoot (createMerkleTree sha [''0xabcd''])\<rparr>,
      \<lparr>name = ''f'', entryHash = ''0xef'', previousHash = ''0xabcd'', timestamp = 7,
       blockNumber = 8, txHash = ''reconstructed'',
       merkleRoot = getMerkleRoot (createMerkleTree sha [''0xabcd'', ''0xef''])\<rparr>]"
  by (simp add: buildChainEntries_def example_ledger_entry_def example_ledger_entry2_def
      upt_rec Let_def)

lemma example_run_eq:
  "example_run =
     (Inr (Rebuilt (validateChain (\<lambda>b. b) example_rebuilt_manager example_rebuilt_disk)),
      example_rebuilt_disk)"
proof -
  let ?svc = "example_service [example_ledger_entry, example_ledger_entry2]"
  have led: "syncFromContract ?svc ''lb'' =
      \<lparr>success = True, sync_entries = [example_ledger_entry, example_ledger_entry2], sync_errors = []\<rparr>"
    by (simp add: syncFromContract_def example_service_def)
  have chk: "checkLocalIntegrity ?svc empty_disk ''lb'' =
      Inr (\<lparr>needsReconstruction = True,
             contractEntries = Some [example_ledger_entry, example_ledger_entry2]\<rparr>, empty_disk)"
    by (simp add: checkLocalIntegrity_def led logbookExists_def existsSync_dir_def empty_disk_def)
  have new: "ChainManager_new empty_disk ''lb'' =
      Inr (\<lparr>mgr_data = \<lparr>logbookName = ''lb'', entries = []\<rparr>, mgr_logbookName = ''lb''\<rparr>,
           \<lparr>logbooks = [''lb'' \<mapsto> \<lparr>chain_file = Some (Chain \<lparr>logbookName = ''lb'', entries = []\<rparr>),
                                  entry_files = Map.empty\<rparr>], writable = True\<rparr>)"
    by (simp add: ChainManager_new_def blank_def is_space_def is_space2_def existsSync_dir_def empty_disk_def
        mkdirSync_def loadOrCreateChain_def read_chain_file_def saveChainData_def
        write_chain_file_def Let_def)
  have names: "name example_ledger_entry = ''e''" "name example_ledger_entry2 = ''f''"
    by (simp_all add: example_ledger_entry_def example_ledger_entry2_def)
  have times: "valid_time_value (timestamp example_ledger_entry * 1000)"
    "valid_time_value (timestamp example_ledger_entry2 * 1000)"
    by (simp_all add: valid_time_value_def example_ledger_entry_def example_ledger_entry2_def)
  show ?thesis
    unfolding example_run_def reconstruct_def
    by (simp add: chk new Let_def ChainManager_reconstruct_def save_def saveChainData_def
        write_chain_file_def write_entry_file_def read_entry_file_def names times
        example_rebuilt_manager_def example_rebuilt_disk_def example_rebuilt_chain_def
        example_placeholder_def)
qed

lemma example_run_rebuilt: "is_rebuilt (fst example_run)"
  by (simp add: example_run_eq is_rebuilt_def)

theorem reconstruct_from_ledger_witness:
  "is_rebuilt (fst example_run)
   \<and> map previousHash (stored_entries (snd example_run) ''lb'') = [''0x67656e65736973'', ''0xabcd'']
   \<and> map txHash (stored_entries (snd example_run) ''lb'') = [''reconstructed'', ''reconstructed'']
   \<and> reconstruct (\<lambda>b. b) (\<lambda>t. ''1970-01-01T00:00:00.000Z'') (\<lambda>n. ''0'')
       (example_service [example_ledger_entry, example_ledger_entry2]) (snd example_run) ''lb''
      = example_run"
proof -
  let ?svc = "example_service [example_ledger_entry, example_ledger_entry2]"
  from example_run_rebuilt obtain v where "fst example_run = Inr (Rebuilt v)"
    by (auto simp: is_rebuilt_def split: sum.splits outcome.splits)
  then have folded: "example_run = (Inr (Rebuilt v), snd example_run)"
    by (metis prod.collapse)
  have run: "reconstruct (\<lambda>b. b) (\<lambda>t. ''1970-01-01T00:00:00.000Z'') (\<lambda>n. ''0'') ?svc empty_disk ''lb''
      = (Inr (Rebuilt v), snd example_run)"
    by (subst example_run_def [symmetric]) (rule folded)
  have led: "sync_entries (syncFromContract ?svc ''lb'') = [example_ledger_entry, example_ledger_entry2]"
    by (simp add: syncFromContract_def example_service_def)
  from reconstruct_from_ledger [OF run] have
    len: "length (stored_entries (snd example_run) ''lb'') = 2"
    and ix: "\<And>i. i < 2 \<Longrightarrow>
        previousHash (stored_entries (snd example_run) ''lb'' ! i)
          = previousHash ([example_ledger_entry, example_ledger_entry2] ! i)
        \<and> txHash (stored_entries (snd example_run) ''lb'' ! i) = ''reconstructed''"
    and again: "reconstruct (\<lambda>b. b) (\<lambda>t. ''1970-01-01T00:00:00.000Z'') (\<lambda>n. ''0'') ?svc (snd example_run) ''lb''
        = (Inr (Rebuilt v), snd example_run)"
    by (simp_all add: led)
  from len obtain a b where ab: "stored_entries (snd example_run) ''lb'' = [a, b]"
    by (auto simp: length_Suc_conv numeral_2_eq_2)
  from ix [of 0] ix [of 1] ab have fields:
    "previousHash a = ''0x67656e65736973''" "previousHash b = ''0xabcd''"
    "txHash a = ''reconstructed''" "txHash b = ''reconstructed''"
    by (simp_all add: example_ledger_entry_def example_ledger_entry2_def)
  have same: "reconstruct (\<lambda>b. b) (\<lambda>t. ''1970-01-01T00:00:00.000Z'') (\<lambda>n. ''0'') ?svc (snd example_run) ''lb''
      = example_run"
    using again folded by simp
  show ?thesis
    using example_run_rebuilt same by (simp add: ab fields)
qed

subsection \<open>The verdict of the verifier\<close>

lemma verify_contents_flags:
  "verify_contents sha es f =
     \<lparr>allValid = (allValid f \<and> contents_pass sha es),
      hasPlaceholders = (hasPlaceholders f \<or> has_placeholder es)\<rparr>"
  by (induction es arbitrary: f) (auto simp: contents_pass_def has_placeholder_def Let_def)

lemma fold_invalidate:
  assumes "\<And>i f. step i f = (if ok i then f else f\<lparr>allValid := False\<rparr>)"
  shows "fold step is f = \<lparr>allValid = (allValid f \<and> list_all ok is), hasPlaceholders = hasPlaceholders f\<rparr>"
  by (induction "is" arbitrary: f) (auto simp: assms)

lemma verify_links_flags:
  "verify_links sha es f =
     \<lparr>allValid = (allValid f \<and> links_pass sha es), hasPlaceholders = hasPlaceholders f\<rparr>"
  unfolding verify_links_def links_pass_def
  by (rule fold_invalidate) (auto simp: link_step_def link_pass_def Let_def)

lemma verify_contract_flags:
  "verify_contract svc dat f =
     \<lparr>allValid = (allValid f \<and> ledger_pass svc dat), hasPlaceholders = hasPlaceholders f\<rparr>"
proof -
  have step: "fold (contract_step es oc) is g =
      \<lparr>allValid = (allValid g \<and> list_all (\<lambda>i. entryHash (es ! i) = entryHash (oc ! i)
                          \<and> previousHash (es ! i) = previousHash (oc ! i)
                          \<and> name (es ! i) = name (oc ! i)) is),
       hasPlaceholders = hasPlaceholders g\<rparr>" for es oc "is" and g :: flags
    by (rule fold_invalidate) (auto simp: contract_step_def Let_def)
  show ?thesis
    by (auto simp: verify_contract_def ledger_pass_def Let_def step split: sum.splits)
qed

text \<open>
  Claim C3, as amended. A run that reaches the closing message reports one of three
  verdicts; there is no verdict for an incomplete verification, and a ledger that cannot
  be reached counts as a failed check. When no entry is a placeholder, the verdict is
  \<^verbatim>\<open>PASSED\<close> if the content hashes, the linkage and the ledger cross-check all pass, and
  \<^verbatim>\<open>FAILED\<close> otherwise, in particular when the ledger is unreachable. When some entry is a
  placeholder and nothing fails, the verdict is \<^verbatim>\<open>PASSED_WITH_PLACEHOLDERS\<close>.
\<close>

theorem verdict_precedence:
  "(\<not> has_placeholder (export_entries dat) \<longrightarrow>
      performVerification sha (Some currentCodeHash) svc dat =
        Inr (if contents_pass sha (export_entries dat) \<and> links_pass sha (export_entries dat)
                \<and> ledger_pass svc dat
             then PASSED else FAILED))
   \<and> (\<not> has_placeholder (export_entries dat) \<and> \<not> ledger_reached svc dat \<longrightarrow>
      performVerification sha (Some currentCodeHash) svc dat = Inr FAILED)
   \<and> (has_placeholder (export_entries dat) \<and> contents_pass sha (export_entries dat)
        \<and> links_pass sha (export_entries dat) \<and> ledger_pass svc dat \<longrightarrow>
      performVerification sha (Some currentCodeHash) svc dat = Inr PASSED_WITH_PLACEHOLDERS)"
  by (auto simp: performVerification_def Let_def verify_contents_flags verify_links_flags
      verify_contract_flags ledger_reached_def ledger_pass_def split: sum.splits)

lemma example_is_placeholder: "isPlaceholder example_export_entry"
  by (simp add: isPlaceholder_def example_export_entry_def)

lemma example_bundle_passes:
  "has_placeholder [example_export_entry]"
  "contents_pass (\<lambda>b. b) [example_export_entry]"
  "links_pass (\<lambda>b. b) [example_export_entry]"
  "ledger_pass (example_service [example_ledger_entry]) (example_bundle [example_export_entry])"
     apply (simp add: has_placeholder_def example_is_placeholder)
    apply (simp add: contents_pass_def example_is_placeholder)
   apply (simp add: links_pass_def link_pass_def example_is_placeholder)
  apply (simp add: ledger_pass_def example_service_def example_bundle_def
      example_export_entry_def example_ledger_entry_def)
  done

lemma example_unreachable: "\<not> ledger_reached unreachable_service (example_bundle es)"
  by (simp add: ledger_reached_def unreachable_service_def)

lemma example_empty_bundle:
  "\<not> has_placeholder []" "contents_pass (\<lambda>b. b) []" "links_pass (\<lambda>b. b) []"
  "ledger_pass (example_service []) (example_bundle [])"
  by (simp_all add: has_placeholder_def contents_pass_def links_pass_def ledger_pass_def
      example_service_def example_bundle_def)

theorem verdict_precedence_witness:
  "\<not> has_placeholder (export_entries (example_bundle []))
   \<and> performVerification (\<lambda>b. b) (Some ''0x02'') (example_service []) (example_bundle []) = Inr PASSED
   \<and> \<not> ledger_reached unreachable_service (example_bundle [])
   \<and> performVerification (\<lambda>b. b) (Some ''0x02'') unreachable_service (example_bundle []) = Inr FAILED
   \<and> has_placeholder (export_entries (example_bundle [example_export_entry]))
   \<and> performVerification (\<lambda>b. b) (Some ''0x02'') (example_service [example_ledger_entry])
         (example_bundle [example_export_entry]) = Inr PASSED_WITH_PLACEHOLDERS"
proof -
  have e: "export_entries (example_bundle es) = es" for es
    by (simp add: example_bundle_def)
  have w1: "performVerification (\<lambda>b. b) (Some ''0x02'') (example_service []) (example_bundle []) = Inr PASSED"
    using verdict_precedence [of "example_bundle []" "\<lambda>b. b" "''0x02''" "example_service []",
        THEN conjunct1]
    by (simp add: e example_empty_bundle)
  have w2: "performVerification (\<lambda>b. b) (Some ''0x02'') unreachable_service (example_bundle []) = Inr FAILED"
    using verdict_precedence [of "example_bundle []" "\<lambda>b. b" "''0x02''" unreachable_service,
        THEN conjunct2, THEN conjunct1]
    by (simp add: e example_empty_bundle(1) example_unreachable)
  have w3: "performVerification (\<lambda>b. b) (Some ''0x02'') (example_service [example_ledger_entry])
         (example_bundle [example_export_entry]) = Inr PASSED_WITH_PLACEHOLDERS"
    using verdict_precedence [of "example_bundle [example_export_entry]" "\<lambda>b. b" "''0x02''"
        "example_service [example_ledger_entry]", THEN conjunct2, THEN conjunct2]
    by (simp add: e example_bundle_passes)
  show ?thesis
    using w1 w2 w3 by (simp add: e example_empty_bundle(1) example_unreachable example_bundle_passes(1))
qed

text \<open>
  The claim as stated fails twice: with an unreachable ledger the verdict is \<^verbatim>\<open>FAILED\<close>, and
  with a placeholder entry the verdict is \<^verbatim>\<open>PASSED_WITH_PLACEHOLDERS\<close> even when the ledger
  has a different number of entries.
\<close>

theorem verdict_precedence_counterexample:
  "\<not> ledger_reached unreachable_service (example_bundle [])
   \<and> performVerification (\<lambda>b. b) (Some ''0x02'') unreachable_service (example_bundle []) = Inr FAILED
   \<and> has_placeholder [example_export_entry]
   \<and> ledger_reached (example_service []) (example_bundle [example_export_entry])
   \<and> \<not> ledger_pass (example_service []) (example_bundle [example_export_entry])
   \<and> performVerification (\<lambda>b. b) (Some ''0x02'') (example_service [])
         (example_bundle [example_export_entry]) = Inr PASSED_WITH_PLACEHOLDERS"
proof -
  have np: "\<not> ledger_pass (example_service []) (example_bundle [example_export_entry])"
    by (simp add: ledger_pass_def example_service_def example_bundle_def)
  have lr: "ledger_reached (example_service []) (example_bundle [example_export_entry])"
    by (simp add: ledger_reached_def example_service_def)
  have a: "performVerification (\<lambda>b. b) (Some ''0x02'') unreachable_service (example_bundle []) = Inr FAILED"
    by (simp add: performVerification_def Let_def verify_contents_flags verify_links_flags
        verify_contract_flags example_bundle_def has_placeholder_def contents_pass_def
        links_pass_def ledger_pass_def unreachable_service_def)
  have b: "performVerification (\<lambda>b. b) (Some ''0x02'') (example_service [])
         (example_bundle [example_export_entry]) = Inr PASSED_WITH_PLACEHOLDERS"
    by (simp add: performVerification_def Let_def verify_contents_flags verify_links_flags
        verify_contract_flags example_bundle_def example_bundle_passes(1))
  show ?thesis
    using np lr a b example_unreachable example_bundle_passes(1) by simp
qed

subsection \<open>Validation of the local chain\<close>

lemma linkage_findings_empty:
  "linkage_findings i prev rest = [] \<longleftrightarrow>
   (\<forall>j < length rest. previousHash (rest ! j) = entryHash ((prev # rest) ! j))"
proof (induction rest arbitrary: i prev)
  case Nil
  then show ?case by simp
next
  case (Cons c rest)
  show ?case
    by (auto simp: Cons.IH less_Suc_eq_0_disj)
qed

lemma content_finding_empty:
  "content_finding sha d lb e = [] \<longleftrightarrow>
   (\<exists>c. read_entry_file d lb (name e) = Some (Content c) \<and> hashContent sha c = entryHash e)"
  by (auto simp: content_finding_def Let_def split: option.splits entry_txt.splits)

lemma content_findings_empty:
  "concat (map (content_finding sha d lb) es) = [] \<longleftrightarrow>
   (\<forall>e \<in> set es. \<exists>c. read_entry_file d lb (name e) = Some (Content c)
                        \<and> hashContent sha c = entryHash e)"
  by (simp add: content_finding_empty)

lemma errors_validateChain:
  "entries (mgr_data m) = first # rest \<Longrightarrow>
   errors (validateChain sha m d) =
     (if previousHash first \<noteq> GENESIS_HASH sha then [GenesisMismatch (GENESIS_HASH sha)] else [])
     @ linkage_findings 1 first rest
     @ concat (map (content_finding sha d (mgr_logbookName m)) (first # rest))"
  "valid (validateChain sha m d) = (errors (validateChain sha m d) = [])"
  by (auto simp: validateChain_def Let_def split: list.splits)

text \<open>
  Claim C2, as amended. \<^verbatim>\<open>validateChain\<close> makes no exception for placeholder content and has
  no finding that says "skipped". The chain is reported valid exactly when it is empty,
  or the first entry has the genesis hash as \<^verbatim>\<open>previousHash\<close>, every later entry has its
  predecessor's \<^verbatim>\<open>entryHash\<close> as \<^verbatim>\<open>previousHash\<close>, and every entry's entry.txt exists, can be
  read and hashes to the entry's \<^verbatim>\<open>entryHash\<close>. Every entry whose entry.txt holds a text
  with another hash, a placeholder text included, gets a content hash mismatch finding
  and makes the chain invalid.
\<close>

theorem validateChain_no_placeholder_exemption:
  "(valid (validateChain sha m d) \<longleftrightarrow>
      entries (mgr_data m) = []
      \<or> (previousHash (hd (entries (mgr_data m))) = hashContent sha ''genesis''
         \<and> (\<forall>i. 0 < i \<and> i < length (entries (mgr_data m)) \<longrightarrow>
                previousHash (entries (mgr_data m) ! i) = entryHash (entries (mgr_data m) ! (i - 1)))
         \<and> (\<forall>e \<in> set (entries (mgr_data m)).
                \<exists>c. read_entry_file d (mgr_logbookName m) (name e) = Some (Content c)
                     \<and> hashContent sha c = entryHash e)))
   \<and> (\<forall>e \<in> set (entries (mgr_data m)). \<forall>c.
         read_entry_file d (mgr_logbookName m) (name e) = Some (Content c)
         \<and> hashContent sha c \<noteq> entryHash e \<longrightarrow>
         ContentHashMismatch (name e) (entryHash e) (hashContent sha c)
           \<in> set (errors (validateChain sha m d))
         \<and> \<not> valid (validateChain sha m d))"
proof (cases "entries (mgr_data m)")
  case Nil
  then show ?thesis by (simp add: validateChain_def)
next
  case (Cons first rest)
  have link: "(\<forall>j < length rest. previousHash (rest ! j) = entryHash ((first # rest) ! j))
      \<longleftrightarrow> (\<forall>i. 0 < i \<and> i < length (first # rest) \<longrightarrow>
             previousHash ((first # rest) ! i) = entryHash ((first # rest) ! (i - 1)))"
  proof
    assume a: "\<forall>j < length rest. previousHash (rest ! j) = entryHash ((first # rest) ! j)"
    show "\<forall>i. 0 < i \<and> i < length (first # rest) \<longrightarrow>
             previousHash ((first # rest) ! i) = entryHash ((first # rest) ! (i - 1))"
    proof (intro allI impI)
      fix i assume "0 < i \<and> i < length (first # rest)"
      then obtain j where "i = Suc j" "j < length rest" by (cases i) auto
      with a show "previousHash ((first # rest) ! i) = entryHash ((first # rest) ! (i - 1))"
        by simp
    qed
  next
    assume b: "\<forall>i. 0 < i \<and> i < length (first # rest) \<longrightarrow>
             previousHash ((first # rest) ! i) = entryHash ((first # rest) ! (i - 1))"
    show "\<forall>j < length rest. previousHash (rest ! j) = entryHash ((first # rest) ! j)"
    proof (intro allI impI)
      fix j assume "j < length rest"
      with b [rule_format, of "Suc j"] show "previousHash (rest ! j) = entryHash ((first # rest) ! j)"
        by simp
    qed
  qed
  have v: "valid (validateChain sha m d) \<longleftrightarrow>
      previousHash first = hashContent sha ''genesis''
      \<and> (\<forall>i. 0 < i \<and> i < length (first # rest) \<longrightarrow>
             previousHash ((first # rest) ! i) = entryHash ((first # rest) ! (i - 1)))
      \<and> (\<forall>e \<in> set (first # rest).
                \<exists>c. read_entry_file d (mgr_logbookName m) (name e) = Some (Content c)
                     \<and> hashContent sha c = entryHash e)"
    unfolding errors_validateChain(2) errors_validateChain(1) [OF Cons] link [symmetric]
      append_is_Nil_conv linkage_findings_empty content_findings_empty
    by (simp add: GENESIS_HASH_def)
  have mism: "ContentHashMismatch (name e) (entryHash e) (hashContent sha c)
           \<in> set (errors (validateChain sha m d)) \<and> \<not> valid (validateChain sha m d)"
    if "e \<in> set (first # rest)" "read_entry_file d (mgr_logbookName m) (name e) = Some (Content c)"
      "hashContent sha c \<noteq> entryHash e" for e c
  proof -
    have "content_finding sha d (mgr_logbookName m) e
        = [ContentHashMismatch (name e) (entryHash e) (hashContent sha c)]"
      using that(2,3) by (simp add: content_finding_def)
    with that(1) have "ContentHashMismatch (name e) (entryHash e) (hashContent sha c)
        \<in> set (concat (map (content_finding sha d (mgr_logbookName m)) (first # rest)))"
      by (metis (no_types, lifting) UN_iff list.set_intros(1) set_concat set_map imageI)
    then have "ContentHashMismatch (name e) (entryHash e) (hashContent sha c)
        \<in> set (errors (validateChain sha m d))"
      unfolding errors_validateChain(1) [OF Cons] by simp
    then show ?thesis
      unfolding errors_validateChain(2) by auto
  qed
  show ?thesis
    using v mism by (simp add: Cons)
qed


lemma example_placeholder_starts:
  "take 44 (example_placeholder entry) = ''PLACEHOLDER - Original content not available''"
  by (simp add: example_placeholder_def placeholder_def)

lemma example_placeholder_hash:
  "take 4 (hashContent (\<lambda>b. b) (example_placeholder entry)) = ''0x50''"
proof -
  obtain rest where "example_placeholder entry = CHR ''P'' # rest"
    by (simp add: example_placeholder_def placeholder_def)
  then show ?thesis
    by (simp add: hashContent_def ethers_sha256_def toUtf8Bytes_def buffer_to_hex_def
        byte_to_hex_def hex_digit_def)
qed

lemma example_placeholder_mismatch:
  "hashContent (\<lambda>b. b) (example_placeholder entry) \<noteq> ''0xabcd''"
  "hashContent (\<lambda>b. b) (example_placeholder entry) \<noteq> ''0xef''"
  using example_placeholder_hash [of entry] by auto

lemma example_rebuilt_validation:
  "validateChain (\<lambda>b. b) example_rebuilt_manager example_rebuilt_disk =
     \<lparr>valid = False,
      errors = [ContentHashMismatch ''e'' ''0xabcd''
                  (hashContent (\<lambda>b. b) (example_placeholder example_ledger_entry)),
                ContentHashMismatch ''f'' ''0xef''
                  (hashContent (\<lambda>b. b) (example_placeholder example_ledger_entry2))]\<rparr>"
  by (simp add: validateChain_def example_rebuilt_manager_def example_rebuilt_chain_def
      example_built example_genesis content_finding_def read_entry_file_def
      example_rebuilt_disk_def example_placeholder_mismatch Let_def)

theorem validateChain_no_placeholder_exemption_witness:
  "valid (validateChain (\<lambda>b. b) example_manager example_disk)
   \<and> read_entry_file example_rebuilt_disk ''lb'' ''e''
       = Some (Content (example_placeholder example_ledger_entry))
   \<and> hashContent (\<lambda>b. b) (example_placeholder example_ledger_entry) \<noteq> ''0xabcd''
   \<and> ContentHashMismatch ''e'' ''0xabcd''
         (hashContent (\<lambda>b. b) (example_placeholder example_ledger_entry))
       \<in> set (errors (validateChain (\<lambda>b. b) example_rebuilt_manager example_rebuilt_disk))
   \<and> \<not> valid (validateChain (\<lambda>b. b) example_rebuilt_manager example_rebuilt_disk)"
proof -
  let ?e = "\<lparr>name = ''e'', entryHash = ''0xabcd'', previousHash = ''0x67656e65736973'',
       timestamp = 5, blockNumber = 6, txHash = ''reconstructed'',
       merkleRoot = getMerkleRoot (createMerkleTree (\<lambda>b. b) [''0xabcd''])\<rparr>"
  have w1: "valid (validateChain (\<lambda>b. b) example_manager example_disk)"
    using validateChain_no_placeholder_exemption [of "\<lambda>b. b" example_manager example_disk,
        THEN conjunct1]
    by (simp add: example_manager_def)
  have mem: "?e \<in> set (entries (mgr_data example_rebuilt_manager))"
    by (simp add: example_rebuilt_manager_def example_rebuilt_chain_def example_built)
  have rd: "read_entry_file example_rebuilt_disk ''lb'' ''e''
       = Some (Content (example_placeholder example_ledger_entry))"
    by (simp add: read_entry_file_def example_rebuilt_disk_def)
  have lb: "mgr_logbookName example_rebuilt_manager = ''lb''"
    by (simp add: example_rebuilt_manager_def)
  have w2: "ContentHashMismatch ''e'' ''0xabcd''
         (hashContent (\<lambda>b. b) (example_placeholder example_ledger_entry))
       \<in> set (errors (validateChain (\<lambda>b. b) example_rebuilt_manager example_rebuilt_disk))
     \<and> \<not> valid (validateChain (\<lambda>b. b) example_rebuilt_manager example_rebuilt_disk)"
    using validateChain_no_placeholder_exemption [of "\<lambda>b. b" example_rebuilt_manager
        example_rebuilt_disk, THEN conjunct2, rule_format, OF mem,
        of "example_placeholder example_ledger_entry"]
      rd lb example_placeholder_mismatch(1) [of example_ledger_entry]
    by simp
  show ?thesis
    using w1 w2 rd example_placeholder_mismatch(1) by simp
qed

text \<open>
  The scenario of the specification: the ledger has two linked entries, the disk has no
  logbook. After the reconstruction both entry files hold the placeholder text, and the
  validation that follows reports the chain invalid, with a content hash mismatch for
  each entry and nothing else.
\<close>

theorem validateChain_placeholder_counterexample:
  "take 44 (example_placeholder example_ledger_entry) = ''PLACEHOLDER - Original content not available''
   \<and> take 44 (example_placeholder example_ledger_entry2) = ''PLACEHOLDER - Original content not available''
   \<and> example_run =
       (Inr (Rebuilt
          \<lparr>valid = False,
           errors = [ContentHashMismatch ''e'' ''0xabcd''
                       (hashContent (\<lambda>b. b) (example_placeholder example_ledger_entry)),
                     ContentHashMismatch ''f'' ''0xef''
                       (hashContent (\<lambda>b. b) (example_placeholder example_ledger_entry2))]\<rparr>),
        example_rebuilt_disk)"
  by (simp add: example_placeholder_starts example_run_eq example_rebuilt_validation)

end
